theory Spec2Isabelle
  imports Main "HOL-Library.Char_ord" "HOL-Library.Sublist"
begin

section \<open>Go strings\<close>

text \<open>
  The theory embeds the converter of \<^verbatim>\<open>converter.go\<close>: the parser \<^verbatim>\<open>ParseSQL\<close>, the
  generator \<^verbatim>\<open>GenerateGoCode\<close> and the functions they call. Each Go function is a HOL
  function of the same name; a loop is a recursive function over the characters or the
  elements it visits, with the loop's variables as arguments. The calls of
  \<^verbatim>\<open>log.Printf\<close> have no effect on a result and are left out.

  A Go \<^verbatim>\<open>string\<close> is a sequence of bytes, modelled as \<^typ>\<open>string\<close> (a list of 8-bit
  \<^typ>\<open>char\<close>). The library functions of the packages \<^verbatim>\<open>strings\<close> and \<^verbatim>\<open>regexp\<close> that
  the converter calls are modelled on their behaviour on ASCII text: case mapping and
  case folding touch the letters \<^verbatim>\<open>a-z\<close>/\<^verbatim>\<open>A-Z\<close> only and white space is the ASCII
  white space. On a text with bytes outside ASCII the Go functions can do otherwise (they
  work on Unicode code points), so the model is the code on the inputs with \<open>isASCII\<close>; the
  results about all inputs whose truth depends on it are stated for those inputs. Lengths
  and indices are unbounded (\<^typ>\<open>nat\<close>, \<^typ>\<open>int\<close>): Go's 64-bit \<^verbatim>\<open>int\<close> cannot overflow
  on the length of a string that fits in memory.
\<close>

definition isUpperAZ :: "char \<Rightarrow> bool" where
  "isUpperAZ r = (CHR ''A'' \<le> r \<and> r \<le> CHR ''Z'')"

definition isLowerAZ :: "char \<Rightarrow> bool" where
  "isLowerAZ r = (CHR ''a'' \<le> r \<and> r \<le> CHR ''z'')"

definition isDigit09 :: "char \<Rightarrow> bool" where
  "isDigit09 r = (CHR ''0'' \<le> r \<and> r \<le> CHR ''9'')"

definition toUpperChar :: "char \<Rightarrow> char" where
  "toUpperChar c = (if isLowerAZ c then char_of (of_char c - (32::nat)) else c)"

definition toLowerChar :: "char \<Rightarrow> char" where
  "toLowerChar c = (if isUpperAZ c then char_of (of_char c + (32::nat)) else c)"

text \<open>\<^verbatim>\<open>strings.ToUpper\<close>, \<^verbatim>\<open>strings.ToLower\<close> on ASCII text. Go maps every Unicode letter
  (U+017F to \<^verbatim>\<open>S\<close>, for one), which can change the length of the string, and rewrites an
  invalid byte to U+FFFD; the model keeps every byte outside \<^verbatim>\<open>a-z\<close>/\<^verbatim>\<open>A-Z\<close>. The two
  agree on the strings with \<open>isASCII\<close>, and a statement about all strings that rests on
  them has \<open>isASCII\<close> among its hypotheses.\<close>

definition ToUpper :: "string \<Rightarrow> string" where
  "ToUpper s = map toUpperChar s"

definition ToLower :: "string \<Rightarrow> string" where
  "ToLower s = map toLowerChar s"

definition isASCII :: "string \<Rightarrow> bool" where
  "isASCII s = list_all (\<lambda>c. (of_char c :: nat) < 128) s"

text \<open>\<^verbatim>\<open>unicode.IsSpace\<close> on ASCII: tab, newline, vertical tab, form feed, carriage return,
  space. It is the white space of \<^verbatim>\<open>strings.TrimSpace\<close> and \<^verbatim>\<open>strings.Fields\<close>. In Go
  these also take the Unicode spaces (U+0085, U+00A0 and others) for white space; the model
  agrees with them on the strings with \<open>isASCII\<close>.\<close>

definition isSpace :: "char \<Rightarrow> bool" where
  "isSpace c = (c = CHR 0x09 \<or> c = CHR 0x0A \<or> c = CHR 0x0B \<or> c = CHR 0x0C \<or> c = CHR 0x0D
     \<or> c = CHR '' '')"

definition TrimSpace :: "string \<Rightarrow> string" where
  "TrimSpace s = rev (dropWhile isSpace (rev (dropWhile isSpace s)))"

text \<open>\<^verbatim>\<open>strings.Fields\<close>: the maximal runs of non-space characters.\<close>

fun FieldsAcc :: "string \<Rightarrow> string \<Rightarrow> string list" where
  "FieldsAcc cur [] = (if cur = [] then [] else [cur])"
| "FieldsAcc cur (c # cs) =
     (if isSpace c then (if cur = [] then FieldsAcc [] cs else cur # FieldsAcc [] cs)
      else FieldsAcc (cur @ [c]) cs)"

definition Fields_str :: "string \<Rightarrow> string list" where
  "Fields_str s = FieldsAcc [] s"

text \<open>\<^verbatim>\<open>strings.Join\<close>.\<close>

fun Join :: "string list \<Rightarrow> string \<Rightarrow> string" where
  "Join [] sep = []"
| "Join [p] sep = p"
| "Join (p # q # ps) sep = p @ sep @ Join (q # ps) sep"

text \<open>\<^verbatim>\<open>strings.Split\<close> with a one-character separator: empty segments are kept.\<close>

fun SplitAcc :: "string \<Rightarrow> char \<Rightarrow> string \<Rightarrow> string list" where
  "SplitAcc cur sep [] = [cur]"
| "SplitAcc cur sep (c # cs) =
     (if c = sep then cur # SplitAcc [] sep cs else SplitAcc (cur @ [c]) sep cs)"

definition Split :: "string \<Rightarrow> char \<Rightarrow> string list" where
  "Split s sep = SplitAcc [] sep s"

text \<open>\<^verbatim>\<open>strings.HasPrefix\<close>.\<close>

definition HasPrefix :: "string \<Rightarrow> string \<Rightarrow> bool" where
  "HasPrefix s p = (take (length p) s = p)"

text \<open>\<^verbatim>\<open>strings.Index\<close>: the index of the first occurrence of \<open>sub\<close> in \<open>s\<close>;
  \<open>None\<close> stands for Go's \<open>-1\<close>.\<close>

fun Index :: "string \<Rightarrow> string \<Rightarrow> nat option" where
  "Index [] sub = (if sub = [] then Some 0 else None)"
| "Index (c # cs) sub =
     (if HasPrefix (c # cs) sub then Some 0
      else (case Index cs sub of None \<Rightarrow> None | Some i \<Rightarrow> Some (Suc i)))"

definition Contains :: "string \<Rightarrow> string \<Rightarrow> bool" where
  "Contains s sub = (Index s sub \<noteq> None)"

section \<open>Case converters\<close>

text \<open>\<^verbatim>\<open>toPascalCase\<close>: split at underscores; of every non-empty part the first byte goes
  through \<open>ToUpper\<close> and the rest through \<open>ToLower\<close>.\<close>

fun pascalPart :: "string \<Rightarrow> string" where
  "pascalPart [] = []"
| "pascalPart (c # cs) = ToUpper [c] @ (if length (c # cs) > 1 then ToLower cs else [])"

definition toPascalCase :: "string \<Rightarrow> string" where
  "toPascalCase s = foldl (\<lambda>result part. result @ pascalPart part) [] (Split s CHR ''_'')"

text \<open>\<^verbatim>\<open>isLowerSnakeCase\<close>: no character in \<^verbatim>\<open>A-Z\<close>.\<close>

fun isLowerSnakeCase :: "string \<Rightarrow> bool" where
  "isLowerSnakeCase [] = True"
| "isLowerSnakeCase (r # rs) = (if isUpperAZ r then False else isLowerSnakeCase rs)"

text \<open>The body of the loop of \<^verbatim>\<open>toSnakeCase\<close> at index \<open>i\<close> (always below \<open>length s\<close>).\<close>

definition snakeStep :: "string \<Rightarrow> string \<Rightarrow> nat \<Rightarrow> string" where
  "snakeStep s result i =
     (let r = s ! i in
      if isUpperAZ r then
        (let result1 =
           (if i > 0 \<and> s ! (i - 1) \<noteq> CHR ''_'' then
              (let prevIsLower = isLowerAZ (s ! (i - 1));
                   nextIsLower = (i + 1 < length s \<and> isLowerAZ (s ! (i + 1)))
               in if prevIsLower \<or> nextIsLower then result @ ''_'' else result)
            else result)
         in result1 @ [char_of (of_char r + (32::nat))])
      else result @ [r])"

definition toSnakeCase :: "string \<Rightarrow> string" where
  "toSnakeCase s =
     (if s = [] then s
      else if isLowerSnakeCase s then s
      else foldl (snakeStep s) [] [0..<length s])"

section \<open>Errors and run-time panics\<close>

text \<open>
  The errors of \<^verbatim>\<open>ParseSQL\<close> are values of the Go type \<^verbatim>\<open>error\<close> built with
  \<^verbatim>\<open>fmt.Errorf\<close>; they are told apart by their message:
  \<^item> \<open>NoTableName\<close>: \<^verbatim>\<open>failed to extract table name from SQL\<close>;
  \<^item> \<open>NoColumnBlock\<close>: \<^verbatim>\<open>failed to extract column definitions\<close>;
  \<^item> \<open>NoClosingParen\<close>: \<^verbatim>\<open>failed to find closing parenthesis\<close>;
  \<^item> \<open>NoValidColumns\<close>: \<^verbatim>\<open>failed to parse columns: no valid columns found\<close>;
  \<^item> \<open>InvalidColumnDefinition\<close>: \<^verbatim>\<open>invalid column definition: ...\<close> (one clause);
  \<^item> \<open>NoDataType\<close>: \<^verbatim>\<open>could not extract data type from: ...\<close> (one clause).

  \<open>Panic\<close> is not an error value: it stands for a Go run-time panic (a slice expression
  with bounds out of range, \<^verbatim>\<open>strings.Repeat\<close> with a negative count), which unwinds
  the call.
\<close>

datatype error =
    NoTableName
  | NoColumnBlock
  | NoClosingParen
  | NoValidColumns
  | InvalidColumnDefinition
  | NoDataType
  | Panic

definition ebind :: "error + 'a \<Rightarrow> ('a \<Rightarrow> error + 'b) \<Rightarrow> error + 'b" where
  "ebind m f = (case m of Inl e \<Rightarrow> Inl e | Inr x \<Rightarrow> f x)"

text \<open>The slice expression \<^verbatim>\<open>s[lo:hi]\<close> panics unless \<open>lo \<le> hi \<le> len(s)\<close>;
  \<^verbatim>\<open>s[lo:]\<close> is \<^verbatim>\<open>s[lo:len(s)]\<close> and \<^verbatim>\<open>s[:hi]\<close> is \<^verbatim>\<open>s[0:hi]\<close>.\<close>

definition slice :: "string \<Rightarrow> nat \<Rightarrow> nat \<Rightarrow> error + string" where
  "slice s lo hi = (if lo \<le> hi \<and> hi \<le> length s then Inr (take (hi - lo) (drop lo s)) else Inl Panic)"

definition sliceFrom :: "string \<Rightarrow> nat \<Rightarrow> error + string" where
  "sliceFrom s lo = slice s lo (length s)"

definition sliceTo :: "string \<Rightarrow> nat \<Rightarrow> error + string" where
  "sliceTo s hi = slice s 0 hi"

text \<open>\<^verbatim>\<open>strings.Repeat\<close> panics on a negative count.\<close>

definition Repeat :: "string \<Rightarrow> int \<Rightarrow> error + string" where
  "Repeat s count = (if count < 0 then Inl Panic else Inr (concat (replicate (nat count) s)))"

section \<open>Data model\<close>

record Config =
  AddJSONTag :: bool
  AddGormTag :: bool
  AddXMLTag :: bool
  AddDBTag :: bool

record FieldDef =
  Name :: string
  Type :: string
  ColumnName :: string

record StructDef =
  Name :: string
  Fields :: "FieldDef list"

section \<open>Regular expressions\<close>

text \<open>
  Package \<^verbatim>\<open>regexp\<close> finds the leftmost match and, among the matches that start there,
  the one a backtracking search finds first. The expressions of the converter repeat
  single characters only, so the matcher is structural: \<open>rmatch r st\<close> lists, in the
  order of the backtracking search, the states in which a match of \<open>r\<close> that starts in
  state \<open>st\<close> can end. The constructors:
  \<^item> \<open>Lit w\<close>: the text \<open>w\<close>; \<open>LitI w\<close>: the text \<open>w\<close> under the flag \<^verbatim>\<open>(?i)\<close>, compared up to
    the case of ASCII letters (Go folds by Unicode simple folding, so that U+017F also
    matches \<^verbatim>\<open>s\<close> and U+212A also matches \<^verbatim>\<open>k\<close>: the matcher is that of Go on the texts with
    \<open>isASCII\<close>);
  \<^item> \<open>Cls p\<close>: one character of the class \<open>p\<close>; \<open>Star p\<close> and \<open>Plus p\<close>: the greedy
    repetitions \<^verbatim>\<open>*\<close> and \<^verbatim>\<open>+\<close> of the class, longest first;
  \<^item> \<open>Opt r\<close>: the greedy \<^verbatim>\<open>?\<close>; \<open>Seq\<close>: concatenation; \<open>Alt\<close>: alternation, left first;
  \<^item> \<open>Grp n r\<close>: the capturing group number \<open>n\<close>;
  \<^item> \<open>Bot\<close>: \<^verbatim>\<open>^\<close>, \<open>Eot\<close>: \<^verbatim>\<open>$\<close> (no multi-line flag: beginning and end of the text),
    \<open>WordB\<close>: \<^verbatim>\<open>\b\<close>.
\<close>

datatype re =
    Lit string
  | LitI string
  | Cls "char \<Rightarrow> bool"
  | Star "char \<Rightarrow> bool"
  | Plus "char \<Rightarrow> bool"
  | Opt re
  | Seq re re
  | Alt re re
  | Grp nat re
  | Bot
  | Eot
  | WordB

text \<open>A state of the search: the character before the current position (\<open>None\<close> at the
  beginning of the text), the text from the current position on, the captured groups.\<close>

record mstate =
  prevChar :: "char option"
  remaining :: string
  groups :: "string list"

definition advance :: "nat \<Rightarrow> mstate \<Rightarrow> mstate" where
  "advance k st =
     st\<lparr>prevChar := (if k = 0 then prevChar st else Some (remaining st ! (k - 1))), remaining := drop k (remaining st)\<rparr>"

text \<open>The characters of \<^verbatim>\<open>\w\<close>, for the word boundary \<^verbatim>\<open>\b\<close>.\<close>

definition isWordChar :: "char \<Rightarrow> bool" where
  "isWordChar c = (isDigit09 c \<or> isUpperAZ c \<or> isLowerAZ c \<or> c = CHR ''_'')"

definition isWordOpt :: "char option \<Rightarrow> bool" where
  "isWordOpt c = (case c of None \<Rightarrow> False | Some d \<Rightarrow> isWordChar d)"

definition nextChar :: "string \<Rightarrow> char option" where
  "nextChar s = (case s of [] \<Rightarrow> None | c # cs \<Rightarrow> Some c)"

fun rmatch :: "re \<Rightarrow> mstate \<Rightarrow> mstate list" where
  "rmatch (Lit w) st = (if HasPrefix (remaining st) w then [advance (length w) st] else [])"
| "rmatch (LitI w) st =
     (if length w \<le> length (remaining st) \<and> ToUpper (take (length w) (remaining st)) = ToUpper w
      then [advance (length w) st] else [])"
| "rmatch (Cls p) st =
     (case remaining st of [] \<Rightarrow> [] | c # cs \<Rightarrow> if p c then [advance 1 st] else [])"
| "rmatch (Star p) st =
     map (\<lambda>k. advance k st) (rev [0..<Suc (length (takeWhile p (remaining st)))])"
| "rmatch (Plus p) st =
     map (\<lambda>k. advance k st) (rev [1..<Suc (length (takeWhile p (remaining st)))])"
| "rmatch (Opt r) st = rmatch r st @ [st]"
| "rmatch (Seq r1 r2) st = concat (map (rmatch r2) (rmatch r1 st))"
| "rmatch (Alt r1 r2) st = rmatch r1 st @ rmatch r2 st"
| "rmatch (Grp n r) st =
     map (\<lambda>st'. st'\<lparr>groups := (groups st')[n := take (length (remaining st) - length (remaining st')) (remaining st)]\<rparr>)
       (rmatch r st)"
| "rmatch Bot st = (if prevChar st = None then [st] else [])"
| "rmatch Eot st = (if remaining st = [] then [st] else [])"
| "rmatch WordB st =
     (if isWordOpt (prevChar st) = isWordOpt (nextChar (remaining st)) then [] else [st])"

fun Seqs :: "re list \<Rightarrow> re" where
  "Seqs [] = Lit []"
| "Seqs (r # rs) = Seq r (Seqs rs)"

fun Alts :: "re list \<Rightarrow> re" where
  "Alts [] = Cls (\<lambda>c. False)"
| "Alts [r] = r"
| "Alts (r # q # rs) = Alt r (Alts (q # rs))"

text \<open>The match that starts at the current position, if there is one: the whole match at
  index 0, then the \<open>n\<close> groups (the empty string for a group that took no part).\<close>

definition matchHere :: "re \<Rightarrow> nat \<Rightarrow> char option \<Rightarrow> string \<Rightarrow> string list" where
  "matchHere r n p s =
     (case rmatch r \<lparr>prevChar = p, remaining = s, groups = replicate (Suc n) []\<rparr> of
        [] \<Rightarrow> []
      | st' # _ \<Rightarrow> (groups st')[0 := take (length s - length (remaining st')) s])"

fun findFrom :: "re \<Rightarrow> nat \<Rightarrow> char option \<Rightarrow> string \<Rightarrow> string list" where
  "findFrom r n p [] = matchHere r n p []"
| "findFrom r n p (c # cs) =
     (let m = matchHere r n p (c # cs) in if m = [] then findFrom r n (Some c) cs else m)"

text \<open>\<^verbatim>\<open>FindStringSubmatch\<close> of an expression with \<open>n\<close> groups; \<open>[]\<close> stands for Go's
  \<^verbatim>\<open>nil\<close> (no match). \<^verbatim>\<open>MatchString\<close> says whether there is a match.\<close>

definition FindStringSubmatch :: "re \<Rightarrow> nat \<Rightarrow> string \<Rightarrow> string list" where
  "FindStringSubmatch r n s = findFrom r n None s"

definition MatchString :: "re \<Rightarrow> string \<Rightarrow> bool" where
  "MatchString r s = (findFrom r 0 None s \<noteq> [])"

text \<open>The class \<^verbatim>\<open>\s\<close> of package \<^verbatim>\<open>regexp\<close>: \<^verbatim>\<open>[\t\n\f\r ]\<close> (no vertical tab).\<close>

definition reSpace :: "char \<Rightarrow> bool" where
  "reSpace c = (c = CHR 0x09 \<or> c = CHR 0x0A \<or> c = CHR 0x0C \<or> c = CHR 0x0D \<or> c = CHR '' '')"

text \<open>\<^verbatim>\<open>[`"']\<close> and \<^verbatim>\<open>[a-zA-Z0-9_]\<close>.\<close>

definition isQuote :: "char \<Rightarrow> bool" where
  "isQuote c = (c = CHR 0x60 \<or> c = CHR 0x22 \<or> c = CHR 0x27)"

definition isIdentChar :: "char \<Rightarrow> bool" where
  "isIdentChar c = (isLowerAZ c \<or> isUpperAZ c \<or> isDigit09 c \<or> c = CHR ''_'')"

text \<open>The four pre-compiled patterns. \<open>tableNameRegex\<close> is
  \<^verbatim>\<open>(?i)CREATE\s+TABLE\s+(?:IF\s+NOT\s+EXISTS\s+)?[`"']?([a-zA-Z0-9_]+)[`"']?\s*\(\<close>.\<close>

definition tableNameRegex :: re where
  "tableNameRegex =
     Seqs [LitI ''CREATE'', Plus reSpace, LitI ''TABLE'', Plus reSpace,
       Opt (Seqs [LitI ''IF'', Plus reSpace, LitI ''NOT'', Plus reSpace, LitI ''EXISTS'',
         Plus reSpace]),
       Opt (Cls isQuote), Grp 1 (Plus isIdentChar), Opt (Cls isQuote), Star reSpace,
       Lit ''('']"

text \<open>\<open>columnBlockRegex\<close> is
  \<^verbatim>\<open>\(([\s\S]+)\)\s*(?:ENGINE|DEFAULT|AUTO_INCREMENT|COMMENT|;|$)\<close>.\<close>

definition columnBlockRegex :: re where
  "columnBlockRegex =
     Seqs [Lit ''('', Grp 1 (Plus (\<lambda>c. True)), Lit '')'', Star reSpace,
       Alts [Lit ''ENGINE'', Lit ''DEFAULT'', Lit ''AUTO_INCREMENT'', Lit ''COMMENT'',
         Lit '';'', Eot]]"

text \<open>\<open>typeRegex\<close> is \<^verbatim>\<open>(?i)^(TINYINT|SMALLINT|...|ENUM|SET)(?:\s*\(([^)]+)\))?(?:\s+(UNSIGNED))?\<close>,
  with the alternatives of the first group in the order of \<open>typeKeywords\<close>.\<close>

definition typeKeywords :: "string list" where
  "typeKeywords =
     [''TINYINT'', ''SMALLINT'', ''MEDIUMINT'', ''INT'', ''INTEGER'', ''BIGINT'', ''FLOAT'',
      ''DOUBLE'', ''DECIMAL'', ''NUMERIC'', ''CHAR'', ''VARCHAR'', ''TEXT'', ''TINYTEXT'',
      ''MEDIUMTEXT'', ''LONGTEXT'', ''DATETIME'', ''TIMESTAMP'', ''DATE'', ''TIME'',
      ''BOOLEAN'', ''BOOL'', ''BLOB'', ''TINYBLOB'', ''MEDIUMBLOB'', ''LONGBLOB'', ''JSON'',
      ''ENUM'', ''SET'']"

definition typeRegex :: re where
  "typeRegex =
     Seqs [Bot, Grp 1 (Alts (map LitI typeKeywords)),
       Opt (Seqs [Star reSpace, Lit ''('', Grp 2 (Plus (\<lambda>c. c \<noteq> CHR '')'')), Lit '')'']),
       Opt (Seqs [Plus reSpace, Grp 3 (LitI ''UNSIGNED'')])]"

text \<open>\<open>notNullRegex\<close> is \<^verbatim>\<open>(?i)\bNOT\s+NULL\b\<close>.\<close>

definition notNullRegex :: re where
  "notNullRegex = Seqs [WordB, LitI ''NOT'', Plus reSpace, LitI ''NULL'', WordB]"

section \<open>The parser\<close>

text \<open>\<^verbatim>\<open>normalizeWhitespace\<close>: \<^verbatim>\<open>ReplaceAllString\<close> of the pattern \<^verbatim>\<open>\s+\<close> by one
  space. The flag says whether the previous character belongs to the run being replaced.\<close>

fun normalizeRuns :: "bool \<Rightarrow> string \<Rightarrow> string" where
  "normalizeRuns inRun [] = []"
| "normalizeRuns inRun (c # cs) =
     (if reSpace c then (if inRun then normalizeRuns True cs else CHR '' '' # normalizeRuns True cs)
      else c # normalizeRuns False cs)"

definition normalizeWhitespace :: "string \<Rightarrow> string" where
  "normalizeWhitespace s = normalizeRuns False s"

text \<open>\<^verbatim>\<open>findMatchingParen\<close>: the loop runs over \<open>s[start+1:]\<close> with the index \<open>i\<close>.\<close>

fun findMatchingParenLoop :: "string \<Rightarrow> nat \<Rightarrow> int \<Rightarrow> nat option" where
  "findMatchingParenLoop [] i count = None"
| "findMatchingParenLoop (c # cs) i count =
     (if c = CHR ''('' then findMatchingParenLoop cs (i + 1) (count + 1)
      else if c = CHR '')'' then
        (if count - 1 = 0 then Some i else findMatchingParenLoop cs (i + 1) (count - 1))
      else findMatchingParenLoop cs (i + 1) count)"

definition findMatchingParen :: "string \<Rightarrow> nat \<Rightarrow> nat option" where
  "findMatchingParen s start = findMatchingParenLoop (drop (start + 1) s) (start + 1) 1"

text \<open>\<^verbatim>\<open>splitColumns\<close>: the loop over the characters with its three variables.\<close>

fun splitColumnsLoop :: "string \<Rightarrow> string list \<Rightarrow> string \<Rightarrow> int \<Rightarrow> string list" where
  "splitColumnsLoop [] result current parenCount =
     (if length current > 0 then result @ [current] else result)"
| "splitColumnsLoop (char # cs) result current parenCount =
     (if char = CHR ''('' then splitColumnsLoop cs result (current @ [char]) (parenCount + 1)
      else if char = CHR '')'' then splitColumnsLoop cs result (current @ [char]) (parenCount - 1)
      else if char = CHR '','' then
        (if parenCount = 0 then splitColumnsLoop cs (result @ [current]) [] parenCount
         else splitColumnsLoop cs result (current @ [char]) parenCount)
      else splitColumnsLoop cs result (current @ [char]) parenCount)"

definition splitColumns :: "string \<Rightarrow> string list" where
  "splitColumns columnBlock = splitColumnsLoop columnBlock [] [] 0"

definition constraintKeywords :: "string list" where
  "constraintKeywords =
     [''PRIMARY KEY'', ''FOREIGN KEY'', ''UNIQUE KEY'', ''KEY '', ''INDEX '', ''CONSTRAINT'',
      ''CHECK '']"

definition isConstraint :: "string \<Rightarrow> bool" where
  "isConstraint line =
     (let upperLine = ToUpper line in list_ex (\<lambda>keyword. HasPrefix upperLine keyword) constraintKeywords)"

text \<open>\<^verbatim>\<open>extractColumnName\<close>. The two quoted branches are the same code for the backtick
  and for the double quote.\<close>

definition extractQuoted :: "string \<Rightarrow> char \<Rightarrow> error + string \<times> string" where
  "extractQuoted line q =
     ebind (sliceFrom line 1) (\<lambda>line1.
       case Index line1 [q] of
         None \<Rightarrow> Inr ([], [])
       | Some end \<Rightarrow>
           ebind (slice line 1 (end + 1)) (\<lambda>columnName.
           ebind (sliceFrom line (end + 2)) (\<lambda>rest.
             Inr (columnName, TrimSpace rest))))"

definition extractColumnName :: "string \<Rightarrow> error + string \<times> string" where
  "extractColumnName line0 =
     (let line = TrimSpace line0 in
      if line = [] then Inr ([], [])
      else if line ! 0 = CHR 0x60 then extractQuoted line (CHR 0x60)
      else if line ! 0 = CHR 0x22 then extractQuoted line (CHR 0x22)
      else
        (let parts = Fields_str line in
         if length parts < 2 then Inr ([], [])
         else Inr (parts ! 0, Join (drop 1 parts) '' '')))"

definition extractDataType :: "string \<Rightarrow> string" where
  "extractDataType definition =
     (let matches = FindStringSubmatch typeRegex 3 definition in
      if length matches > 0 then
        (let dataType = ToUpper (matches ! 1);
             size = (if length matches > 2 \<and> matches ! 2 \<noteq> [] then matches ! 2 else [])
         in if dataType = ''TINYINT'' \<and> size = ''1'' then ''TINYINT(1)'' else dataType)
      else [])"

text \<open>\<^verbatim>\<open>mapSQLTypeToGo\<close>. \<open>switchSQLType\<close> is the \<^verbatim>\<open>switch\<close> statement, case by case in
  the order of the source: \<open>Inr\<close> is the value it assigns to \<^verbatim>\<open>baseType\<close>, \<open>Inl\<close> the value the
  \<^verbatim>\<open>BLOB\<close> case returns at once.\<close>

definition switchSQLType :: "string \<Rightarrow> bool \<Rightarrow> string + string" where
  "switchSQLType sqlType unsigned =
     (if sqlType \<in> set [''TINYINT(1)'', ''BOOLEAN'', ''BOOL''] then Inr ''bool''
      else if sqlType = ''TINYINT'' then Inr (if unsigned then ''uint8'' else ''int8'')
      else if sqlType = ''SMALLINT'' then Inr (if unsigned then ''uint16'' else ''int16'')
      else if sqlType \<in> set [''MEDIUMINT'', ''INT'', ''INTEGER''] then
        Inr (if unsigned then ''uint32'' else ''int'')
      else if sqlType = ''BIGINT'' then Inr (if unsigned then ''uint64'' else ''int64'')
      else if sqlType \<in> set [''FLOAT'', ''DOUBLE'', ''DECIMAL'', ''NUMERIC''] then Inr ''float64''
      else if sqlType \<in> set [''CHAR'', ''VARCHAR'', ''TEXT'', ''TINYTEXT'', ''MEDIUMTEXT'',
          ''LONGTEXT'', ''JSON''] then Inr ''string''
      else if sqlType \<in> set [''DATETIME'', ''TIMESTAMP'', ''DATE'', ''TIME''] then Inr ''time.Time''
      else if sqlType \<in> set [''BLOB'', ''TINYBLOB'', ''MEDIUMBLOB'', ''LONGBLOB''] then Inl ''[]byte''
      else Inr ''string'')"

definition mapSQLTypeToGo :: "string \<Rightarrow> bool \<Rightarrow> bool \<Rightarrow> string" where
  "mapSQLTypeToGo sqlType0 nullable unsigned =
     (let sqlType = ToUpper sqlType0 in
      case switchSQLType sqlType unsigned of
        Inl returned \<Rightarrow> returned
      | Inr baseType \<Rightarrow> if nullable then ''*'' @ baseType else baseType)"

text \<open>\<^verbatim>\<open>removeCommentsAndDefaults\<close>: two \<^verbatim>\<open>if\<close> statements, each of which may assign to
  \<^verbatim>\<open>line\<close>, then \<^verbatim>\<open>return strings.TrimSpace(line)\<close>. Both indices are taken in
  \<open>upperLine\<close>, the upper-cased argument; the slices are taken from \<open>line\<close>, which the first
  statement may already have cut.\<close>

definition removeComment :: "string \<Rightarrow> string \<Rightarrow> error + string" where
  "removeComment upperLine line =
     (case Index upperLine ''COMMENT'' of
        None \<Rightarrow> Inr line
      | Some idx \<Rightarrow> sliceTo line idx)"

definition removeDefault :: "string \<Rightarrow> string \<Rightarrow> error + string" where
  "removeDefault upperLine line =
     (case Index upperLine ''DEFAULT'' of
        None \<Rightarrow> Inr line
      | Some idx \<Rightarrow>
          ebind (sliceFrom line (idx + 7)) (\<lambda>rest0.
            let rest = TrimSpace rest0 in
            if length rest > 0 \<and> (rest ! 0 = CHR 0x27 \<or> rest ! 0 = CHR 0x22) then
              (let quote = rest ! 0 in
               ebind (sliceFrom rest 1) (\<lambda>rest1.
                 case Index rest1 [quote] of
                   Some endIdx \<Rightarrow>
                     ebind (sliceTo line idx) (\<lambda>front.
                     ebind (sliceFrom rest (endIdx + 2)) (\<lambda>back.
                       Inr (front @ back)))
                 | None \<Rightarrow> sliceTo line idx))
            else
              (let words = Fields_str rest in
               if length words > 0 then sliceTo line idx else Inr line)))"

definition removeCommentsAndDefaults :: "string \<Rightarrow> error + string" where
  "removeCommentsAndDefaults line0 =
     (let upperLine = ToUpper line0 in
      ebind (removeComment upperLine line0) (\<lambda>line1.
      ebind (removeDefault upperLine line1) (\<lambda>line2.
        Inr (TrimSpace line2))))"

definition parseColumnDefinition :: "string \<Rightarrow> error + FieldDef" where
  "parseColumnDefinition line0 =
     (let line = TrimSpace line0 in
      ebind (extractColumnName line) (\<lambda>(columnName, restOfLine).
        if columnName = [] then Inl InvalidColumnDefinition
        else
          (let dataType = extractDataType restOfLine in
           if dataType = [] then Inl NoDataType
           else
             ebind (removeCommentsAndDefaults restOfLine) (\<lambda>checkLine.
               let isNullable = (\<not> MatchString notNullRegex checkLine);
                   isUnsigned = Contains (ToUpper restOfLine) ''UNSIGNED'';
                   goType = mapSQLTypeToGo dataType isNullable isUnsigned
               in Inr \<lparr>FieldDef.Name = toPascalCase columnName, Type = goType,
                        ColumnName = columnName\<rparr>))))"

text \<open>\<^verbatim>\<open>parseColumns\<close>: the loop over the clauses. An error of \<open>parseColumnDefinition\<close>
  is logged and the clause skipped; a panic is not an error value and ends the call.\<close>

fun parseColumnsLoop :: "string list \<Rightarrow> FieldDef list \<Rightarrow> error + FieldDef list" where
  "parseColumnsLoop [] flds = Inr flds"
| "parseColumnsLoop (line0 # lines) flds =
     (let line = TrimSpace line0 in
      if line = [] then parseColumnsLoop lines flds
      else if isConstraint line then parseColumnsLoop lines flds
      else
        (case parseColumnDefinition line of
           Inl err \<Rightarrow> (if err = Panic then Inl Panic else parseColumnsLoop lines flds)
         | Inr field \<Rightarrow> parseColumnsLoop lines (flds @ [field])))"

definition parseColumns :: "string \<Rightarrow> error + FieldDef list" where
  "parseColumns columnBlock =
     (let lines = splitColumns columnBlock in
      ebind (parseColumnsLoop lines []) (\<lambda>flds.
        if length flds = 0 then Inl NoValidColumns else Inr flds))"

text \<open>The column block of \<^verbatim>\<open>ParseSQL\<close>: the first group of \<open>columnBlockRegex\<close>, or, when
  the pattern does not match, the text between the first \<^verbatim>\<open>(\<close> and its matching
  \<^verbatim>\<open>)\<close>.\<close>

definition extractColumnBlock :: "string \<Rightarrow> error + string" where
  "extractColumnBlock sql =
     (let columnMatches = FindStringSubmatch columnBlockRegex 1 sql in
      ebind
        (if length columnMatches < 2 then
           (case Index sql ''('' of
              None \<Rightarrow> Inl NoColumnBlock
            | Some start \<Rightarrow>
                (case findMatchingParen sql start of
                   None \<Rightarrow> Inl NoClosingParen
                 | Some end \<Rightarrow> ebind (slice sql (start + 1) end) (\<lambda>block. Inr [[], block])))
         else Inr columnMatches) (\<lambda>columnMatches.
        if length columnMatches < 2 then Inl NoColumnBlock else Inr (columnMatches ! 1)))"

definition ParseSQL :: "string \<Rightarrow> error + StructDef list" where
  "ParseSQL sql0 =
     (let sql = normalizeWhitespace (TrimSpace sql0);
          matches = FindStringSubmatch tableNameRegex 1 sql
      in if length matches < 2 then Inl NoTableName
         else
           (let tableName = matches ! 1;
                structName = toPascalCase tableName
            in ebind (extractColumnBlock sql) (\<lambda>columnBlock.
                 ebind (parseColumns columnBlock) (\<lambda>flds.
                   Inr [\<lparr>StructDef.Name = structName, Fields = flds\<rparr>]))))"

section \<open>The code generator\<close>

fun needsTimeImport :: "StructDef list \<Rightarrow> bool" where
  "needsTimeImport [] = False"
| "needsTimeImport (def # defs) =
     (if list_ex (\<lambda>field. Contains (Type field) ''time.Time'') (Fields def) then True
      else needsTimeImport defs)"

definition generateStructTags :: "string \<Rightarrow> Config \<Rightarrow> string" where
  \<open>generateStructTags columnName config =
     (let normalizedName = toSnakeCase columnName;
          tags0 = [];
          tags1 = (if AddJSONTag config then tags0 @ [''json:"'' @ normalizedName @ ''"'']
                   else tags0);
          tags2 = (if AddDBTag config then tags1 @ [''db:"'' @ normalizedName @ ''"'']
                   else tags1);
          tags3 = (if AddGormTag config then tags2 @ [''gorm:"column:'' @ normalizedName @ ''"'']
                   else tags2);
          tags4 = (if AddXMLTag config then tags3 @ [''xml:"'' @ normalizedName @ ''"'']
                   else tags3)
      in Join tags4 '' '')\<close>

definition calculateAlignment :: "FieldDef list \<Rightarrow> int \<times> int" where
  "calculateAlignment flds =
     foldl (\<lambda>(maxNameLen, maxTypeLen) field.
        (if int (length (FieldDef.Name field)) > maxNameLen then int (length (FieldDef.Name field))
         else maxNameLen,
         if int (length (Type field)) > maxTypeLen then int (length (Type field))
         else maxTypeLen)) (0, 0) flds"

text \<open>One round of the loop over the fields in \<^verbatim>\<open>generateStruct\<close>: what it appends to the
  output.\<close>

definition generateField :: "int \<Rightarrow> int \<Rightarrow> Config \<Rightarrow> FieldDef \<Rightarrow> error + string" where
  "generateField maxNameLen maxTypeLen config field =
     ebind (Repeat '' '' (maxNameLen - int (length (FieldDef.Name field)) + 1)) (\<lambda>pad1.
       let out1 = [CHR 0x09] @ FieldDef.Name field @ pad1 @ Type field;
           tags = generateStructTags (ColumnName field) config
       in ebind
            (if tags \<noteq> [] then
               ebind (Repeat '' '' (maxTypeLen - int (length (Type field)) + 1)) (\<lambda>pad2.
                 Inr (out1 @ pad2 @ [CHR 0x60] @ tags @ [CHR 0x60]))
             else Inr out1) (\<lambda>out2.
            Inr (out2 @ [CHR 0x0A])))"

fun generateFields :: "int \<Rightarrow> int \<Rightarrow> Config \<Rightarrow> FieldDef list \<Rightarrow> string \<Rightarrow> error + string" where
  "generateFields maxNameLen maxTypeLen config [] output = Inr output"
| "generateFields maxNameLen maxTypeLen config (field # flds) output =
     ebind (generateField maxNameLen maxTypeLen config field) (\<lambda>text.
       generateFields maxNameLen maxTypeLen config flds (output @ text))"

definition generateStruct :: "StructDef \<Rightarrow> Config \<Rightarrow> error + string" where
  "generateStruct def config =
     (let output = ''type '' @ StructDef.Name def @ '' struct {'' @ [CHR 0x0A] in
      if length (Fields def) = 0 then Inr (output @ ''}'' @ [CHR 0x0A])
      else
        (case calculateAlignment (Fields def) of (maxNameLen, maxTypeLen) \<Rightarrow>
           ebind (generateFields maxNameLen maxTypeLen config (Fields def) output) (\<lambda>output1.
             Inr (output1 @ ''}'' @ [CHR 0x0A]))))"

text \<open>The loop over the structs in \<^verbatim>\<open>GenerateGoCode\<close>, with its index \<open>i\<close>.\<close>

fun generateStructs :: "StructDef list \<Rightarrow> nat \<Rightarrow> Config \<Rightarrow> string \<Rightarrow> error + string" where
  "generateStructs [] i config output = Inr output"
| "generateStructs (def # defs) i config output =
     (let output1 = (if i > 0 then output @ [CHR 0x0A] else output) in
      ebind (generateStruct def config) (\<lambda>text.
        generateStructs defs (i + 1) config (output1 @ text)))"

definition GenerateGoCode :: "StructDef list \<Rightarrow> Config \<Rightarrow> error + string" where
  \<open>GenerateGoCode defs config =
     (if length defs = 0 then Inr []
      else
        (let needsTime = needsTimeImport defs;
             output = ''package main'' @ [CHR 0x0A, CHR 0x0A];
             output1 = (if needsTime then output @ ''import "time"'' @ [CHR 0x0A, CHR 0x0A]
                        else output)
         in generateStructs defs 0 config output1))\<close>

section \<open>The column identifier of the specification\<close>


section \<open>Clause tails on which the stripping step fails\<close>

text \<open>A predicate on the tail of a column clause, used to say when
  \<open>removeCommentsAndDefaults\<close> panics: the first \<^verbatim>\<open>COMMENT\<close> of the upper-cased tail lies
  before its first \<^verbatim>\<open>DEFAULT\<close>.\<close>

definition commentBeforeDefault :: "string \<Rightarrow> bool" where
  "commentBeforeDefault tail =
     (case Index (ToUpper tail) ''COMMENT'' of
        None \<Rightarrow> False
      | Some i \<Rightarrow> (case Index (ToUpper tail) ''DEFAULT'' of None \<Rightarrow> False | Some j \<Rightarrow> i < j))"

section \<open>Properties of the case converters\<close>

lemma isLowerSnakeCase_all: "isLowerSnakeCase s = list_all (\<lambda>r. \<not> isUpperAZ r) s"
  by (induction s) auto

lemma lowered_not_upper: "isUpperAZ r \<Longrightarrow> \<not> isUpperAZ (char_of (of_char r + (32::nat)))"
  by (auto simp: isUpperAZ_def less_eq_char_def)

lemma underscore_not_upper: "\<not> isUpperAZ CHR ''_''"
  by (simp add: isUpperAZ_def less_eq_char_def)

lemma snakeStep_no_upper:
  "list_all (\<lambda>r. \<not> isUpperAZ r) result \<Longrightarrow> list_all (\<lambda>r. \<not> isUpperAZ r) (snakeStep s result i)"
  by (simp add: snakeStep_def Let_def lowered_not_upper underscore_not_upper)

lemma snakeLoop_no_upper:
  "list_all (\<lambda>r. \<not> isUpperAZ r) result \<Longrightarrow>
   list_all (\<lambda>r. \<not> isUpperAZ r) (foldl (snakeStep s) result is)"
  by (induction "is" arbitrary: result) (simp_all add: snakeStep_no_upper)

lemma toSnakeCase_no_upper: "isLowerSnakeCase (toSnakeCase s)"
proof (cases "s = [] \<or> isLowerSnakeCase s")
  case True
  then show ?thesis by (auto simp: toSnakeCase_def)
next
  case False
  have "list_all (\<lambda>r. \<not> isUpperAZ r) (foldl (snakeStep s) [] [0..<length s])"
    by (rule snakeLoop_no_upper) simp
  with False show ?thesis by (simp add: toSnakeCase_def isLowerSnakeCase_all)
qed

lemma toSnakeCase_UserID: "toSnakeCase ''UserID'' = ''user_id''"
  by code_simp

text \<open>
  Claim C6. The any-case-to-snake converter is idempotent: for every string \<open>x\<close>,
  \<open>toSnakeCase (toSnakeCase x) = toSnakeCase x\<close>; and \<open>toSnakeCase ''UserID'' = ''user_id''\<close>.
\<close>

theorem toSnakeCase_idempotent:
  "toSnakeCase (toSnakeCase x) = toSnakeCase x \<and> toSnakeCase ''UserID'' = ''user_id''"
proof
  show "toSnakeCase (toSnakeCase x) = toSnakeCase x"
    using toSnakeCase_no_upper [of x] by (simp add: toSnakeCase_def [of "toSnakeCase x"])
  show "toSnakeCase ''UserID'' = ''user_id''"
    by (rule toSnakeCase_UserID)
qed

lemma toUpperChar_idem: "toUpperChar (toUpperChar c) = toUpperChar c"
  by (auto simp: toUpperChar_def isLowerAZ_def less_eq_char_def)

lemma toLowerChar_idem: "toLowerChar (toLowerChar c) = toLowerChar c"
  by (auto simp: toLowerChar_def isUpperAZ_def less_eq_char_def)

lemma toUpperChar_underscore: "CHR ''_'' = toUpperChar c \<Longrightarrow> c = CHR ''_''"
  by (auto simp: toUpperChar_def isLowerAZ_def less_eq_char_def split: if_splits
      dest!: arg_cong [where f = "of_char :: char \<Rightarrow> nat"])

lemma toLowerChar_underscore: "CHR ''_'' = toLowerChar c \<Longrightarrow> c = CHR ''_''"
  by (auto simp: toLowerChar_def isUpperAZ_def less_eq_char_def split: if_splits
      dest!: arg_cong [where f = "of_char :: char \<Rightarrow> nat"])

lemma SplitAcc_no_sep: "sep \<notin> set cs \<Longrightarrow> SplitAcc cur sep cs = [cur @ cs]"
  by (induction cs arbitrary: cur) auto

lemma toPascalCase_no_underscore:
  "CHR ''_'' \<notin> set x \<Longrightarrow> toPascalCase x = pascalPart x"
  by (simp add: toPascalCase_def Split_def SplitAcc_no_sep)

lemma pascalPart_underscore: "CHR ''_'' \<notin> set x \<Longrightarrow> CHR ''_'' \<notin> set (pascalPart x)"
  by (cases x) (auto simp: ToUpper_def ToLower_def dest: toUpperChar_underscore toLowerChar_underscore)

lemma pascalPart_idem: "pascalPart (pascalPart x) = pascalPart x"
  by (cases x) (auto simp: ToUpper_def ToLower_def toUpperChar_idem toLowerChar_idem)

lemma toPascalCase_user_id: "toPascalCase ''user_id'' = ''UserId''"
  by code_simp

lemma toPascalCase_a_b_c_d: "toPascalCase ''a_b_c_d'' = ''ABCD''"
  by code_simp

lemma toPascalCase_UserId: "toPascalCase ''UserId'' = ''Userid''"
  by code_simp

text \<open>
  Claim C5, as stated: \<open>toPascalCase\<close> is idempotent on every string. It is not: the second
  application sees \<open>''UserId''\<close> as one segment and lowers its inner capital.
\<close>

theorem toPascalCase_not_idempotent:
  "toPascalCase (toPascalCase ''user_id'') \<noteq> toPascalCase ''user_id''"
  by (simp add: toPascalCase_user_id toPascalCase_UserId)

text \<open>
  Claim C5, amended. \<open>toPascalCase ''user_id'' = ''UserId''\<close> and
  \<open>toPascalCase ''a_b_c_d'' = ''ABCD''\<close>; and for every ASCII string \<open>x\<close> without an
  underscore (one segment) \<open>toPascalCase (toPascalCase x) = toPascalCase x\<close>. The
  hypothesis \<open>isASCII x\<close> is the range on which \<open>ToUpper\<close> and \<open>ToLower\<close> are modelled.
\<close>

theorem toPascalCase_idempotent_on_segment:
  assumes "isASCII x" and "CHR ''_'' \<notin> set x"
  shows "toPascalCase ''user_id'' = ''UserId'' \<and> toPascalCase ''a_b_c_d'' = ''ABCD'' \<and>
         toPascalCase (toPascalCase x) = toPascalCase x"
proof -
  have "toPascalCase (toPascalCase x) = toPascalCase (pascalPart x)"
    using assms(2) by (simp add: toPascalCase_no_underscore)
  also have "\<dots> = pascalPart (pascalPart x)"
    using assms(2) by (simp add: toPascalCase_no_underscore pascalPart_underscore)
  also have "\<dots> = toPascalCase x"
    using assms(2) by (simp add: pascalPart_idem toPascalCase_no_underscore)
  finally show ?thesis
    by (simp add: toPascalCase_user_id toPascalCase_a_b_c_d)
qed

theorem toPascalCase_idempotent_on_segment_witness:
  "isASCII ''UserId'' \<and> CHR ''_'' \<notin> set ''UserId'' \<and>
   toPascalCase (toPascalCase ''UserId'') = toPascalCase ''UserId''"
proof -
  have a: "isASCII ''UserId''" by (simp add: isASCII_def)
  have b: "CHR ''_'' \<notin> set ''UserId''" by simp
  show ?thesis using a b toPascalCase_idempotent_on_segment [OF a b] by simp
qed

section \<open>Properties of the code generator\<close>

lemma Repeat_ok: "0 \<le> count \<Longrightarrow> \<exists>pad. Repeat s count = Inr pad"
  by (simp add: Repeat_def)

lemma alignment_fold_bound:
  "foldl (\<lambda>(maxNameLen, maxTypeLen) field.
        (if int (length (FieldDef.Name field)) > maxNameLen then int (length (FieldDef.Name field))
         else maxNameLen,
         if int (length (Type field)) > maxTypeLen then int (length (Type field))
         else maxTypeLen)) (a, b) flds = (a', b') \<Longrightarrow>
   a \<le> a' \<and> b \<le> b' \<and>
   list_all (\<lambda>f. int (length (FieldDef.Name f)) \<le> a' \<and> int (length (Type f)) \<le> b') flds"
proof (induction flds arbitrary: a b)
  case Nil
  then show ?case by simp
next
  case (Cons f flds)
  from Cons.prems Cons.IH show ?case
    by (fastforce split: if_splits)
qed

lemma calculateAlignment_bound:
  "calculateAlignment flds = (maxNameLen, maxTypeLen) \<Longrightarrow>
   list_all (\<lambda>f. int (length (FieldDef.Name f)) \<le> maxNameLen \<and> int (length (Type f)) \<le> maxTypeLen) flds"
  unfolding calculateAlignment_def by (drule alignment_fold_bound) simp

lemma generateField_ok:
  assumes "int (length (FieldDef.Name f)) \<le> maxNameLen" "int (length (Type f)) \<le> maxTypeLen"
  shows "\<exists>text. generateField maxNameLen maxTypeLen config f = Inr text"
proof -
  obtain pad1 where p1: "Repeat '' '' (maxNameLen - int (length (FieldDef.Name f)) + 1) = Inr pad1"
    using Repeat_ok [of "maxNameLen - int (length (FieldDef.Name f)) + 1"] assms by auto
  obtain pad2 where p2: "Repeat '' '' (maxTypeLen - int (length (Type f)) + 1) = Inr pad2"
    using Repeat_ok [of "maxTypeLen - int (length (Type f)) + 1"] assms by auto
  show ?thesis
    by (simp add: generateField_def ebind_def p1 p2 Let_def)
qed

lemma generateFields_ok:
  "list_all (\<lambda>f. int (length (FieldDef.Name f)) \<le> maxNameLen \<and> int (length (Type f)) \<le> maxTypeLen) flds \<Longrightarrow>
   \<exists>out. generateFields maxNameLen maxTypeLen config flds out0 = Inr out"
proof (induction flds arbitrary: out0)
  case Nil
  then show ?case by simp
next
  case (Cons f flds)
  then obtain body where "generateField maxNameLen maxTypeLen config f = Inr body"
    using generateField_ok [of f maxNameLen maxTypeLen config] by auto
  with Cons show ?case by (simp add: ebind_def)
qed

lemma generateStruct_ok: "\<exists>text. generateStruct def config = Inr text"
proof (cases "Fields def = []")
  case True
  then show ?thesis by (simp add: generateStruct_def)
next
  case False
  obtain maxNameLen maxTypeLen where ca: "calculateAlignment (Fields def) = (maxNameLen, maxTypeLen)"
    by (cases "calculateAlignment (Fields def)") auto
  from generateFields_ok [OF calculateAlignment_bound [OF ca]]
  obtain out where
    "generateFields maxNameLen maxTypeLen config (Fields def)
       (''type '' @ StructDef.Name def @ '' struct {'' @ [CHR 0x0A]) = Inr out"
    by blast
  with False ca show ?thesis by (simp add: generateStruct_def ebind_def Let_def)
qed

lemma generateStructs_ok: "\<exists>out. generateStructs defs i config out0 = Inr out"
proof (induction defs arbitrary: i out0)
  case Nil
  then show ?case by simp
next
  case (Cons d defs)
  obtain body where "generateStruct d config = Inr body"
    using generateStruct_ok by blast
  with Cons show ?case by (simp add: ebind_def Let_def)
qed

text \<open>
  Claim C7. \<open>GenerateGoCode\<close> never fails: for every list of structs and every
  configuration it returns a text (no count of \<^verbatim>\<open>strings.Repeat\<close> is negative); on the
  empty list the text is empty; on one struct without fields it is the package clause
  followed by the declaration with an empty body.
\<close>

theorem GenerateGoCode_total:
  \<open>(\<exists>out. GenerateGoCode defs config = Inr out) \<and>
   GenerateGoCode [] config = Inr [] \<and>
   GenerateGoCode [\<lparr>StructDef.Name = n, Fields = []\<rparr>] config =
     Inr (''package main'' @ [CHR 0x0A, CHR 0x0A] @ ''type '' @ n @ '' struct {'' @ [CHR 0x0A] @ ''}'' @ [CHR 0x0A])\<close>
proof (intro conjI)
  show "\<exists>out. GenerateGoCode defs config = Inr out"
    using generateStructs_ok by (simp add: GenerateGoCode_def Let_def)
  show "GenerateGoCode [] config = Inr []"
    by (simp add: GenerateGoCode_def)
  show "GenerateGoCode [\<lparr>StructDef.Name = n, Fields = []\<rparr>] config =
     Inr (''package main'' @ [CHR 0x0A, CHR 0x0A] @ ''type '' @ n @ '' struct {'' @ [CHR 0x0A] @ ''}'' @ [CHR 0x0A])"
    by (simp add: GenerateGoCode_def generateStruct_def ebind_def Let_def)
qed

section \<open>The table-name pattern needs the opening parenthesis\<close>

lemma remaining_advance: "remaining (advance k st) = drop k (remaining st)"
  by (simp add: advance_def)

lemma rmatch_suffix:
  "st' \<in> set (rmatch r st) \<Longrightarrow> suffix (remaining st') (remaining st)"
proof (induction r arbitrary: st st')
  case (Seq r1 r2)
  then obtain mid where "mid \<in> set (rmatch r1 st)" "st' \<in> set (rmatch r2 mid)"
    by auto
  with Seq.IH show ?case
    by (blast intro: suffix_order.trans)
qed (auto simp: remaining_advance suffix_drop split: if_splits list.splits)

lemma rmatch_keeps_absent:
  "st' \<in> set (rmatch r st) \<Longrightarrow> c \<notin> set (remaining st) \<Longrightarrow> c \<notin> set (remaining st')"
  using rmatch_suffix set_mono_suffix by fastforce

lemma Lit_paren_absent:
  "CHR ''('' \<notin> set (remaining st) \<Longrightarrow> rmatch (Lit ''('') st = []"
  by (cases "remaining st") (auto simp: HasPrefix_def)

lemma Seqs_paren_absent:
  "CHR ''('' \<notin> set (remaining st) \<Longrightarrow> rmatch (Seqs (rs @ [Lit ''(''])) st = []"
proof (induction rs arbitrary: st)
  case Nil
  then have h: "rmatch (Lit ''('') st = []"
    by (rule Lit_paren_absent)
  show ?case
    by (simp only: append_Nil Seqs.simps rmatch.simps(7) h list.map concat.simps)
next
  case (Cons r rs)
  have "\<forall>mid \<in> set (rmatch r st). rmatch (Seqs (rs @ [Lit ''(''])) mid = []"
    using Cons rmatch_keeps_absent by blast
  then show ?case by simp
qed

lemma tableNameRegex_paren_absent:
  "CHR ''('' \<notin> set (remaining st) \<Longrightarrow> rmatch tableNameRegex st = []"
proof -
  have "tableNameRegex =
     Seqs ([LitI ''CREATE'', Plus reSpace, LitI ''TABLE'', Plus reSpace,
       Opt (Seqs [LitI ''IF'', Plus reSpace, LitI ''NOT'', Plus reSpace, LitI ''EXISTS'',
         Plus reSpace]),
       Opt (Cls isQuote), Grp 1 (Plus isIdentChar), Opt (Cls isQuote), Star reSpace] @
       [Lit ''(''])"
    by (simp add: tableNameRegex_def)
  then show "CHR ''('' \<notin> set (remaining st) \<Longrightarrow> rmatch tableNameRegex st = []"
    using Seqs_paren_absent by metis
qed

lemma findFrom_tableName_paren_absent:
  "CHR ''('' \<notin> set s \<Longrightarrow> findFrom tableNameRegex n p s = []"
  by (induction s arbitrary: p) (simp_all add: matchHere_def tableNameRegex_paren_absent)

lemma set_TrimSpace: "set (TrimSpace s) \<subseteq> set s"
proof -
  have "set (TrimSpace s) \<subseteq> set (dropWhile isSpace s)"
    unfolding TrimSpace_def using set_dropWhileD by fastforce
  then show ?thesis using set_dropWhileD by fastforce
qed

lemma set_normalizeRuns: "set (normalizeRuns b s) \<subseteq> insert (CHR '' '') (set s)"
  by (induction s arbitrary: b) auto

lemma normalized_paren_absent:
  "CHR ''('' \<notin> set sql \<Longrightarrow> CHR ''('' \<notin> set (normalizeWhitespace (TrimSpace sql))"
  using set_TrimSpace [of sql] set_normalizeRuns [of False "TrimSpace sql"]
  by (auto simp: normalizeWhitespace_def)

lemma ParseSQL_CREATE_TABLE_users: "ParseSQL ''CREATE TABLE users'' = Inl NoTableName"
  by code_simp

lemma tableName_CREATE_TABLE_users:
  "FindStringSubmatch tableNameRegex 1 ''CREATE TABLE users'' = []"
  by code_simp

text \<open>
  Claim C8, as stated: on \<^verbatim>\<open>CREATE TABLE users\<close> the table-name extraction succeeds and
  \<open>ParseSQL\<close> fails with \<open>NoColumnBlock\<close>. The pattern does not match and the error is
  \<open>NoTableName\<close>.
\<close>

theorem ParseSQL_users_NoTableName:
  "FindStringSubmatch tableNameRegex 1 ''CREATE TABLE users'' = [] \<and>
   ParseSQL ''CREATE TABLE users'' = Inl NoTableName \<and>
   ParseSQL ''CREATE TABLE users'' \<noteq> Inl NoColumnBlock"
proof (intro conjI)
  show "FindStringSubmatch tableNameRegex 1 ''CREATE TABLE users'' = []"
    by (rule tableName_CREATE_TABLE_users)
  show "ParseSQL ''CREATE TABLE users'' = Inl NoTableName"
    by (rule ParseSQL_CREATE_TABLE_users)
  show "ParseSQL ''CREATE TABLE users'' \<noteq> Inl NoColumnBlock"
    by (simp add: ParseSQL_CREATE_TABLE_users)
qed

text \<open>
  Claim C8, amended. For every input without an opening parenthesis (such as
  \<^verbatim>\<open>CREATE TABLE users\<close>) the table-name pattern, which ends with \<^verbatim>\<open>\s*\(\<close>, does not
  match the normalized text, and \<open>ParseSQL\<close> fails with \<open>NoTableName\<close>.
\<close>

theorem ParseSQL_no_paren:
  assumes "CHR ''('' \<notin> set sql"
  shows "FindStringSubmatch tableNameRegex 1 (normalizeWhitespace (TrimSpace sql)) = [] \<and>
         ParseSQL sql = Inl NoTableName"
  using normalized_paren_absent [OF assms]
  by (simp add: ParseSQL_def FindStringSubmatch_def findFrom_tableName_paren_absent Let_def)

theorem ParseSQL_no_paren_witness:
  "CHR ''('' \<notin> set ''CREATE TABLE users'' \<and> ParseSQL ''CREATE TABLE users'' = Inl NoTableName"
proof -
  have a: "CHR ''('' \<notin> set ''CREATE TABLE users''" by simp
  show ?thesis using a ParseSQL_no_paren [OF a] by simp
qed

section \<open>Fields are derived from the column identifier\<close>

lemma trimRight_snoc:
  "rev (dropWhile P (rev (xs @ [x]))) = (if P x then rev (dropWhile P (rev xs)) else xs @ [x])"
  by simp

lemma trimRight_prefix: "prefix (rev (dropWhile P (rev xs))) xs"
  by (induction xs rule: rev_induct) auto

lemma trimRight_last:
  "rev (dropWhile P (rev xs)) \<noteq> [] \<Longrightarrow> \<not> P (last (rev (dropWhile P (rev xs))))"
  by (induction xs rule: rev_induct) (auto split: if_splits)

lemma trimRight_fixed: "xs = [] \<or> \<not> P (last xs) \<Longrightarrow> rev (dropWhile P (rev xs)) = xs"
  by (cases xs rule: rev_cases) auto

lemma dropWhile_fixed: "xs = [] \<or> \<not> P (hd xs) \<Longrightarrow> dropWhile P xs = xs"
  by (cases xs) auto

lemma TrimSpace_hd: "TrimSpace s \<noteq> [] \<Longrightarrow> \<not> isSpace (hd (TrimSpace s))"
proof -
  assume ne: "TrimSpace s \<noteq> []"
  let ?u = "dropWhile isSpace s"
  have p: "prefix (TrimSpace s) ?u"
    unfolding TrimSpace_def by (rule trimRight_prefix)
  with ne have "?u \<noteq> []" by (metis prefix_Nil)
  then have "\<not> isSpace (hd ?u)" by (rule hd_dropWhile)
  moreover from p ne have "hd (TrimSpace s) = hd ?u"
    by (auto simp: prefix_def)
  ultimately show ?thesis by simp
qed

lemma TrimSpace_last: "TrimSpace s \<noteq> [] \<Longrightarrow> \<not> isSpace (last (TrimSpace s))"
  unfolding TrimSpace_def by (rule trimRight_last)

lemma TrimSpace_idem: "TrimSpace (TrimSpace s) = TrimSpace s"
proof -
  have a: "dropWhile isSpace (TrimSpace s) = TrimSpace s"
    using TrimSpace_hd [of s] by (intro dropWhile_fixed) blast
  have b: "rev (dropWhile isSpace (rev (TrimSpace s))) = TrimSpace s"
    using TrimSpace_last [of s] by (intro trimRight_fixed) blast
  show ?thesis
    unfolding TrimSpace_def [of "TrimSpace s"] a b ..
qed



lemma FieldsAcc_first:
  "cur \<noteq> [] \<or> (s \<noteq> [] \<and> \<not> isSpace (hd s)) \<Longrightarrow>
   FieldsAcc cur s =
     (cur @ takeWhile (\<lambda>c. \<not> isSpace c) s) # FieldsAcc [] (dropWhile (\<lambda>c. \<not> isSpace c) s)"
proof (induction s arbitrary: cur)
  case Nil
  then show ?case by simp
next
  case (Cons c cs)
  show ?case
  proof (cases "isSpace c")
    case True
    with Cons.prems show ?thesis by simp
  next
    case False
    then show ?thesis using Cons.IH [of "cur @ [c]"] by simp
  qed
qed





lemma sublist_trans: "sublist xs ys \<Longrightarrow> sublist ys zs \<Longrightarrow> sublist xs zs"
  by (rule sublist_order.order.trans)

lemma sublist_of_suffix: "sublist xs ys \<Longrightarrow> suffix ys zs \<Longrightarrow> sublist xs zs"
  by (blast intro: sublist_trans suffix_imp_sublist)

lemma set_update_cases: "g \<in> set (xs[n := v]) \<Longrightarrow> g = v \<or> g \<in> set xs"
  using set_update_subset_insert by fastforce

lemma rmatch_groups:
  "st' \<in> set (rmatch r st) \<Longrightarrow> g \<in> set (groups st') \<Longrightarrow>
   g \<in> set (groups st) \<or> sublist g (remaining st)"
proof (induction r arbitrary: st st' g)
  case (Seq r1 r2)
  then obtain mid where mid: "mid \<in> set (rmatch r1 st)" "st' \<in> set (rmatch r2 mid)"
    by auto
  from Seq.IH(2) [OF mid(2) Seq.prems(2)]
  have "g \<in> set (groups mid) \<or> sublist g (remaining mid)" .
  then show ?case
  proof
    assume "g \<in> set (groups mid)"
    with Seq.IH(1) [OF mid(1)] show ?thesis by blast
  next
    assume "sublist g (remaining mid)"
    with rmatch_suffix [OF mid(1)] show ?thesis by (blast intro: sublist_of_suffix)
  qed
next
  case (Grp n r)
  then obtain mid where mid: "mid \<in> set (rmatch r st)"
    "st' = mid\<lparr>groups := (groups mid)[n := take (length (remaining st) - length (remaining mid)) (remaining st)]\<rparr>"
    by auto
  with Grp.prems(2) have "g = take (length (remaining st) - length (remaining mid)) (remaining st) \<or> g \<in> set (groups mid)"
    by (auto dest: set_update_cases)
  then show ?case
  proof
    assume "g = take (length (remaining st) - length (remaining mid)) (remaining st)"
    then show ?thesis by simp
  next
    assume "g \<in> set (groups mid)"
    with Grp.IH [OF mid(1)] show ?thesis by blast
  qed
next
  case (Alt r1 r2)
  from Alt.prems(1) have "st' \<in> set (rmatch r1 st) \<or> st' \<in> set (rmatch r2 st)"
    by simp
  then show ?case using Alt.IH Alt.prems(2) by blast
next
  case (Opt r)
  from Opt.prems(1) have "st' \<in> set (rmatch r st) \<or> st' = st"
    by auto
  then show ?case using Opt.IH Opt.prems(2) by blast
qed (auto simp: advance_def split: if_splits list.splits)

lemma matchHere_sublist: "g \<in> set (matchHere r n p s) \<Longrightarrow> sublist g s"
proof (cases "rmatch r \<lparr>prevChar = p, remaining = s, groups = replicate (Suc n) []\<rparr>")
  case Nil
  assume "g \<in> set (matchHere r n p s)"
  with Nil show ?thesis by (simp add: matchHere_def)
next
  case (Cons st' sts)
  assume "g \<in> set (matchHere r n p s)"
  with Cons have "g = take (length s - length (remaining st')) s \<or> g \<in> set (groups st')"
    by (auto simp: matchHere_def dest: set_update_cases)
  then show ?thesis
  proof
    assume "g = take (length s - length (remaining st')) s"
    then show ?thesis by simp
  next
    assume g: "g \<in> set (groups st')"
    have "st' \<in> set (rmatch r \<lparr>prevChar = p, remaining = s, groups = replicate (Suc n) []\<rparr>)"
      using Cons by simp
    from rmatch_groups [OF this g] show ?thesis by auto
  qed
qed

lemma findFrom_sublist: "g \<in> set (findFrom r n p s) \<Longrightarrow> sublist g s"
proof (induction s arbitrary: p)
  case Nil
  then show ?case using matchHere_sublist [of g r n p "[]"] by simp
next
  case (Cons c cs)
  show ?case
  proof (cases "matchHere r n p (c # cs) = []")
    case True
    with Cons.prems have "g \<in> set (findFrom r n (Some c) cs)" by simp
    from Cons.IH [OF this] show ?thesis
      by (metis sublist_Cons_right)
  next
    case False
    with Cons.prems show ?thesis by (simp add: Let_def matchHere_sublist)
  qed
qed

lemma extractColumnBlock_sublist:
  assumes "extractColumnBlock sql = Inr block"
  shows "sublist block sql"
proof (cases "length (FindStringSubmatch columnBlockRegex 1 sql) < 2")
  case False
  with assms have "block = FindStringSubmatch columnBlockRegex 1 sql ! 1"
    by (simp add: extractColumnBlock_def ebind_def Let_def)
  with False have "block \<in> set (findFrom columnBlockRegex 1 None sql)"
    by (simp add: FindStringSubmatch_def)
  then show ?thesis by (rule findFrom_sublist)
next
  case True
  with assms obtain start e where "slice sql (start + 1) e = Inr block"
    by (auto simp: extractColumnBlock_def ebind_def Let_def split: option.splits sum.splits if_splits)
  then have "block = take (e - (start + 1)) (drop (start + 1) sql)"
    by (simp add: slice_def split: if_splits)
  then show ?thesis
    by (metis sublist_drop sublist_take sublist_trans)
qed

lemma splitColumnsLoop_sublist:
  "x \<in> set (splitColumnsLoop cs result current parenCount) \<Longrightarrow>
   x \<in> set result \<or> sublist x (current @ cs)"
proof (induction cs arbitrary: result current parenCount)
  case Nil
  then show ?case by (auto split: if_splits)
next
  case (Cons c cs)
  show ?case
  proof (cases "c = CHR '','' \<and> parenCount = 0")
    case True
    with Cons.prems have "x \<in> set (splitColumnsLoop cs (result @ [current]) [] parenCount)"
      by simp
    from Cons.IH [OF this] have "x \<in> set result \<or> x = current \<or> sublist x cs" by auto
    then show ?thesis
      by (auto intro: sublist_trans [OF _ sublist_append_leftI [of "cs" "current @ [c]", simplified]])
  next
    case False
    with Cons.prems obtain pc where
      "x \<in> set (splitColumnsLoop cs result (current @ [c]) pc)"
      by (auto split: if_splits)
    from Cons.IH [OF this] show ?thesis by simp
  qed
qed

lemma splitColumns_sublist: "x \<in> set (splitColumns block) \<Longrightarrow> sublist x block"
  using splitColumnsLoop_sublist [of x block "[]" "[]" 0] by (simp add: splitColumns_def)

lemma TrimSpace_sublist: "sublist (TrimSpace s) s"
proof -
  have "prefix (TrimSpace s) (dropWhile isSpace s)"
    unfolding TrimSpace_def by (rule trimRight_prefix)
  then have "sublist (TrimSpace s) (dropWhile isSpace s)" by (rule prefix_imp_sublist)
  then show ?thesis by (rule sublist_trans) (rule sublist_dropWhile)
qed











section \<open>Clauses without a type keyword\<close>



























section \<open>The errors of the parser\<close>

text \<open>
  On ASCII input, apart from the defect in \<open>removeCommentsAndDefaults\<close>, no slice
  expression of the parser is out of range: \<open>removeCommentsAndDefaults\<close> panics exactly on
  the tails with \<open>commentBeforeDefault\<close>, and \<open>ParseSQL\<close> returns \<open>NoTableName\<close>,
  \<open>NoClosingParen\<close> or \<open>NoValidColumns\<close>, or panics on such a tail. (Outside ASCII this
  is not so: \<^verbatim>\<open>strings.ToUpper\<close> can change the length of the tail, and the indices taken
  in the upper-cased tail then do not fit the tail itself.) On no input does \<open>ParseSQL\<close>
  return \<open>NoColumnBlock\<close>: a text that the table-name pattern matches contains an opening
  parenthesis.
\<close>

lemma isASCII_subset: "set t \<subseteq> insert (CHR '' '') (set s) \<Longrightarrow> isASCII s \<Longrightarrow> isASCII t"
  by (auto simp: isASCII_def list_all_iff)

lemma isASCII_sublist: "sublist t s \<Longrightarrow> isASCII s \<Longrightarrow> isASCII t"
  using set_mono_sublist [of t s] by (auto intro: isASCII_subset)

lemma isASCII_normalized: "isASCII s \<Longrightarrow> isASCII (normalizeWhitespace (TrimSpace s))"
proof -
  assume a: "isASCII s"
  have "set (normalizeWhitespace (TrimSpace s)) \<subseteq> insert (CHR '' '') (set s)"
    using set_TrimSpace [of s] set_normalizeRuns [of False "TrimSpace s"]
    by (auto simp: normalizeWhitespace_def)
  then show ?thesis using a by (rule isASCII_subset)
qed

lemma set_FieldsAcc: "p \<in> set (FieldsAcc cur s) \<Longrightarrow> set p \<subseteq> set cur \<union> set s"
  by (induction s arbitrary: cur) (fastforce split: if_splits)+

lemma set_Join: "set (Join ps sep) \<subseteq> set sep \<union> \<Union> (set ` set ps)"
  by (induction ps sep rule: Join.induct) auto

lemma Index_bound:
  "Index s sub = Some i \<Longrightarrow> i + length sub \<le> length s \<and> take (length sub) (drop i s) = sub"
proof (induction s arbitrary: i)
  case Nil
  then show ?case by (simp split: if_splits)
next
  case (Cons c cs)
  show ?case
  proof (cases "HasPrefix (c # cs) sub")
    case True
    then have t: "take (length sub) (c # cs) = sub"
      by (simp add: HasPrefix_def)
    then have "length (take (length sub) (c # cs)) = length sub"
      by simp
    then have "length sub \<le> length (c # cs)"
      by (metis length_take min.cobounded1)
    with True t Cons.prems show ?thesis by simp
  next
    case False
    with Cons.prems obtain j where "Index cs sub = Some j" "i = Suc j"
      by (auto split: option.splits)
    with Cons.IH [of j] show ?thesis by simp
  qed
qed

lemma sliceTo_ok: "idx \<le> length s \<Longrightarrow> sliceTo s idx = Inr (take idx s)"
  by (simp add: sliceTo_def slice_def)

lemma sliceFrom_ok: "idx \<le> length s \<Longrightarrow> sliceFrom s idx = Inr (drop idx s)"
  by (simp add: sliceFrom_def slice_def)

lemma sliceFrom_panic: "length s < idx \<Longrightarrow> sliceFrom s idx = Inl Panic"
  by (simp add: sliceFrom_def slice_def)

lemma keyword_positions:
  assumes c: "Index u ''COMMENT'' = Some i" and d: "Index u ''DEFAULT'' = Some j"
  shows "i < j \<or> j + 7 \<le> i"
proof (rule ccontr)
  assume "\<not> (i < j \<or> j + 7 \<le> i)"
  then obtain k where k: "i = j + k" "k < 7" by (metis le_Suc_ex linorder_not_less nat_add_left_cancel_less not_less_eq_eq)
  have l7: "length ''COMMENT'' = 7" "length ''DEFAULT'' = 7"
    by simp_all
  from Index_bound [OF c, unfolded l7]
  have ci: "i + 7 \<le> length u" "take 7 (drop i u) = ''COMMENT''"
    by blast+
  from Index_bound [OF d, unfolded l7]
  have dj: "j + 7 \<le> length u" "take 7 (drop j u) = ''DEFAULT''"
    by blast+
  have "take 7 (drop i u) ! 0 = u ! i"
    using ci(1) by simp
  with ci(2) have ui: "u ! i = CHR ''C''" by simp
  have "take 7 (drop j u) ! k = u ! (j + k)"
    using dj(1) k(2) by simp
  with dj(2) have "u ! i = ''DEFAULT'' ! k" using k(1) by simp
  with ui have "''DEFAULT'' ! k = CHR ''C''" by simp
  moreover from k(2) have "k = 0 \<or> k = 1 \<or> k = 2 \<or> k = 3 \<or> k = 4 \<or> k = 5 \<or> k = 6"
    by arith
  ultimately show False by auto
qed

lemma removeDefault_ok:
  assumes "\<And>idx. Index upperLine ''DEFAULT'' = Some idx \<Longrightarrow> idx + 7 \<le> length line"
  shows "\<exists>r. removeDefault upperLine line = Inr r"
proof (cases "Index upperLine ''DEFAULT''")
  case None
  then show ?thesis by (simp add: removeDefault_def)
next
  case (Some idx)
  from assms [OF Some] have len: "idx + 7 \<le> length line" .
  then have s0: "sliceFrom line (idx + 7) = Inr (drop (idx + 7) line)"
    by (rule sliceFrom_ok)
  from len have s1: "sliceTo line idx = Inr (take idx line)"
    by (intro sliceTo_ok) simp
  define rest where "rest = TrimSpace (drop (idx + 7) line)"
  show ?thesis
  proof (cases "length rest > 0 \<and> (rest ! 0 = CHR 0x27 \<or> rest ! 0 = CHR 0x22)")
    case False
    with Some s0 s1 show ?thesis
      by (auto simp: removeDefault_def ebind_def Let_def rest_def)
  next
    case True
    then have r1: "sliceFrom rest 1 = Inr (drop 1 rest)"
      by (intro sliceFrom_ok) (cases rest, auto)
    show ?thesis
    proof (cases "Index (drop 1 rest) [rest ! 0]")
      case None
      with Some s0 s1 r1 True show ?thesis
        by (auto simp: removeDefault_def ebind_def Let_def rest_def [symmetric])
    next
      case (Some endIdx)
      from Index_bound [OF Some] have "endIdx + 1 \<le> length (drop 1 rest)" by simp
      then have "endIdx + 2 \<le> length rest" by simp
      then have "sliceFrom rest (endIdx + 2) = Inr (drop (endIdx + 2) rest)"
        by (rule sliceFrom_ok)
      with \<open>Index upperLine ''DEFAULT'' = Some idx\<close> Some s0 s1 r1 True show ?thesis
        by (auto simp: removeDefault_def ebind_def Let_def rest_def [symmetric])
    qed
  qed
qed

lemma removeDefault_panic:
  "Index upperLine ''DEFAULT'' = Some idx \<Longrightarrow> length line < idx + 7 \<Longrightarrow>
   removeDefault upperLine line = Inl Panic"
  by (simp add: removeDefault_def ebind_def sliceFrom_panic)

lemma removeComment_result:
  "length upperLine = length line \<Longrightarrow>
   removeComment upperLine line =
     Inr (case Index upperLine ''COMMENT'' of None \<Rightarrow> line | Some idx \<Rightarrow> take idx line)"
proof (cases "Index upperLine ''COMMENT''")
  case None
  then show ?thesis by (simp add: removeComment_def)
next
  case (Some idx)
  assume "length upperLine = length line"
  with Index_bound [OF Some] have "idx \<le> length line" by simp
  with Some show ?thesis by (simp add: removeComment_def sliceTo_ok)
qed

lemma removeCommentsAndDefaults_panics:
  assumes "isASCII tail" and "commentBeforeDefault tail"
  shows "removeCommentsAndDefaults tail = Inl Panic"
proof -
  from assms(2) obtain i j where
    c: "Index (ToUpper tail) ''COMMENT'' = Some i" and
    d: "Index (ToUpper tail) ''DEFAULT'' = Some j" and ij: "i < j"
    by (auto simp: commentBeforeDefault_def split: option.splits)
  have len: "length (ToUpper tail) = length tail" by (simp add: ToUpper_def)
  from Index_bound [OF c] len have "i \<le> length tail" by simp
  then have "length (take i tail) < j + 7" using ij by simp
  from removeDefault_panic [OF d this] removeComment_result [OF len] c show ?thesis
    by (simp add: removeCommentsAndDefaults_def ebind_def)
qed

lemma removeCommentsAndDefaults_ok:
  assumes "isASCII tail" and "\<not> commentBeforeDefault tail"
  shows "\<exists>r. removeCommentsAndDefaults tail = Inr r"
proof -
  have len: "length (ToUpper tail) = length tail" by (simp add: ToUpper_def)
  define line1 where
    "line1 = (case Index (ToUpper tail) ''COMMENT'' of None \<Rightarrow> tail | Some idx \<Rightarrow> take idx tail)"
  have "idx + 7 \<le> length line1" if d: "Index (ToUpper tail) ''DEFAULT'' = Some idx" for idx
  proof (cases "Index (ToUpper tail) ''COMMENT''")
    case None
    with Index_bound [OF d] len show ?thesis by (simp add: line1_def)
  next
    case (Some i)
    with assms(2) d have "\<not> i < idx" by (simp add: commentBeforeDefault_def)
    with keyword_positions [OF Some d] have "idx + 7 \<le> i" by simp
    moreover from Index_bound [OF Some] len have "i \<le> length tail" by simp
    ultimately show ?thesis using Some by (simp add: line1_def)
  qed
  from removeDefault_ok [of "ToUpper tail" line1, OF this] obtain r where
    "removeDefault (ToUpper tail) line1 = Inr r" by blast
  with removeComment_result [OF len] show ?thesis
    by (simp add: removeCommentsAndDefaults_def ebind_def line1_def)
qed

lemma extractQuoted_ok: "line \<noteq> [] \<Longrightarrow> \<exists>r. extractQuoted line q = Inr r"
proof -
  assume ne: "line \<noteq> []"
  then have s1: "sliceFrom line 1 = Inr (drop 1 line)"
    by (intro sliceFrom_ok) (cases line, auto)
  show ?thesis
  proof (cases "Index (drop 1 line) [q]")
    case None
    with s1 show ?thesis by (simp add: extractQuoted_def ebind_def)
  next
    case (Some e)
    from Index_bound [OF Some] have "e + 1 \<le> length (drop 1 line)" by simp
    then have e: "e + 2 \<le> length line" by simp
    then have "slice line 1 (e + 1) = Inr (take e (drop 1 line))"
      by (simp add: slice_def)
    moreover from e have "sliceFrom line (e + 2) = Inr (drop (e + 2) line)"
      by (rule sliceFrom_ok)
    ultimately show ?thesis using Some s1 by (simp add: extractQuoted_def ebind_def)
  qed
qed

lemma extractColumnName_ok: "\<exists>r. extractColumnName l = Inr r"
  using extractQuoted_ok [of "TrimSpace l"] by (simp add: extractColumnName_def Let_def)

lemma extractQuoted_ascii:
  assumes "isASCII line" and "extractQuoted line q = Inr (name, tail)"
  shows "isASCII tail"
proof -
  from assms(2) have "tail = [] \<or> (\<exists>e. tail = TrimSpace (drop (e + 2) line))"
    by (auto simp: extractQuoted_def ebind_def sliceFrom_def slice_def
        split: sum.splits option.splits if_splits)
  then show ?thesis
  proof
    assume "tail = []"
    then show ?thesis by (simp add: isASCII_def)
  next
    assume "\<exists>e. tail = TrimSpace (drop (e + 2) line)"
    then obtain e where "tail = TrimSpace (drop (e + 2) line)" ..
    then have "sublist tail line"
      by (metis TrimSpace_sublist sublist_drop sublist_trans)
    then show ?thesis using assms(1) by (rule isASCII_sublist)
  qed
qed

lemma extractColumnName_ascii:
  assumes "isASCII l" and "extractColumnName l = Inr (name, tail)"
  shows "isASCII tail"
proof -
  have t: "isASCII (TrimSpace l)"
    using TrimSpace_sublist assms(1) by (rule isASCII_sublist)
  from assms(2) have
    "tail = [] \<or> (\<exists>q. extractQuoted (TrimSpace l) q = Inr (name, tail)) \<or>
     tail = Join (drop 1 (Fields_str (TrimSpace l))) '' ''"
    by (auto simp: extractColumnName_def Let_def split: if_splits)
  then consider "tail = []" | q where "extractQuoted (TrimSpace l) q = Inr (name, tail)"
    | "tail = Join (drop 1 (Fields_str (TrimSpace l))) '' ''"
    by blast
  then show ?thesis
  proof cases
    case 1
    then show ?thesis by (simp add: isASCII_def)
  next
    case 2
    with t show ?thesis by (rule extractQuoted_ascii)
  next
    case 3
    have "set p \<subseteq> set (TrimSpace l)" if "p \<in> set (drop 1 (Fields_str (TrimSpace l)))" for p
      using that set_FieldsAcc [of p "[]" "TrimSpace l"]
      by (auto simp: Fields_str_def dest: in_set_dropD)
    with set_Join [of "drop 1 (Fields_str (TrimSpace l))" "'' ''"] 3
    have "set tail \<subseteq> insert (CHR '' '') (set (TrimSpace l))"
      by auto
    then show ?thesis using t by (rule isASCII_subset)
  qed
qed

lemma parseColumnDefinition_error:
  assumes "isASCII l" and "parseColumnDefinition l = Inl e"
  shows "e = InvalidColumnDefinition \<or> e = NoDataType \<or>
         (e = Panic \<and> (\<exists>name tail. extractColumnName (TrimSpace l) = Inr (name, tail) \<and>
            commentBeforeDefault tail))"
proof -
  obtain name tail where ex: "extractColumnName (TrimSpace l) = Inr (name, tail)"
    using extractColumnName_ok [of "TrimSpace l"] by force
  have "isASCII (TrimSpace l)"
    using TrimSpace_sublist assms(1) by (rule isASCII_sublist)
  then have at: "isASCII tail"
    using ex by (rule extractColumnName_ascii)
  show ?thesis
  proof (cases "commentBeforeDefault tail")
    case True
    from removeCommentsAndDefaults_panics [OF at this] assms(2) ex True show ?thesis
      by (auto simp: parseColumnDefinition_def ebind_def Let_def split: if_splits)
  next
    case False
    from removeCommentsAndDefaults_ok [OF at this] obtain r where
      "removeCommentsAndDefaults tail = Inr r" by blast
    with assms(2) ex show ?thesis
      by (auto simp: parseColumnDefinition_def ebind_def Let_def split: if_splits)
  qed
qed

lemma parseColumnsLoop_error:
  "parseColumnsLoop lines acc = Inl e \<Longrightarrow>
   e = Panic \<and> (\<exists>line \<in> set lines. parseColumnDefinition (TrimSpace line) = Inl Panic)"
proof (induction lines arbitrary: acc)
  case Nil
  then show ?case by simp
next
  case (Cons line lines)
  show ?case
  proof (cases "parseColumnDefinition (TrimSpace line) = Inl Panic")
    case True
    with Cons.prems show ?thesis
      by (auto simp: Let_def split: if_splits sum.splits dest: Cons.IH)
  next
    case False
    with Cons.prems obtain acc' where "parseColumnsLoop lines acc' = Inl e"
      by (auto simp: Let_def split: if_splits sum.splits)
    from Cons.IH [OF this] show ?thesis by auto
  qed
qed

lemma findMatchingParenLoop_bound:
  "findMatchingParenLoop cs i count = Some e \<Longrightarrow> i \<le> e \<and> e < i + length cs"
proof (induction cs arbitrary: i count)
  case Nil
  then show ?case by simp
next
  case (Cons c cs)
  from Cons.prems show ?case
    by (auto split: if_splits dest!: Cons.IH)
qed

lemma extractColumnBlock_error:
  assumes "extractColumnBlock sql = Inl e"
  shows "(e = NoColumnBlock \<and> Index sql ''('' = None) \<or> e = NoClosingParen"
proof (cases "length (FindStringSubmatch columnBlockRegex 1 sql) < 2")
  case False
  with assms show ?thesis by (simp add: extractColumnBlock_def ebind_def Let_def)
next
  case True
  show ?thesis
  proof (cases "Index sql ''(''")
    case None
    with True assms show ?thesis by (simp add: extractColumnBlock_def ebind_def Let_def)
  next
    case (Some start)
    show ?thesis
    proof (cases "findMatchingParen sql start")
      case None
      with True Some assms show ?thesis by (simp add: extractColumnBlock_def ebind_def Let_def)
    next
      case (Some e')
      from findMatchingParenLoop_bound [OF Some [unfolded findMatchingParen_def]]
      have "start + 1 \<le> e'" "e' < start + 1 + length (drop (start + 1) sql)" by auto
      moreover from Index_bound [OF \<open>Index sql ''('' = Some start\<close>] have "start + 1 \<le> length sql"
        by simp
      ultimately have "slice sql (start + 1) e' = Inr (take (e' - (start + 1)) (drop (start + 1) sql))"
        by (simp add: slice_def)
      with True \<open>Index sql ''('' = Some start\<close> Some assms show ?thesis
        by (simp add: extractColumnBlock_def ebind_def Let_def)
    qed
  qed
qed

lemma Index_None_absent: "Index s [c] = None \<Longrightarrow> c \<notin> set s"
  by (induction s) (auto simp: HasPrefix_def split: if_splits option.splits)

lemma tableName_match_has_paren:
  assumes "\<not> length (FindStringSubmatch tableNameRegex 1 s) < 2"
  shows "CHR ''('' \<in> set s"
proof (rule ccontr)
  assume "CHR ''('' \<notin> set s"
  then have "FindStringSubmatch tableNameRegex 1 s = []"
    unfolding FindStringSubmatch_def by (rule findFrom_tableName_paren_absent)
  with assms show False by simp
qed

lemma ParseSQL_never_NoColumnBlock: "ParseSQL sql \<noteq> Inl NoColumnBlock"
proof
  assume a: "ParseSQL sql = Inl NoColumnBlock"
  let ?sql = "normalizeWhitespace (TrimSpace sql)"
  from a have m: "\<not> length (FindStringSubmatch tableNameRegex 1 ?sql) < 2"
    by (auto simp: ParseSQL_def Let_def split: if_splits)
  from tableName_match_has_paren [OF m] have paren: "CHR ''('' \<in> set ?sql" .
  show False
  proof (cases "extractColumnBlock ?sql")
    case (Inl e')
    with m a have "e' = NoColumnBlock" by (simp add: ParseSQL_def ebind_def Let_def)
    with extractColumnBlock_error [OF Inl] paren Index_None_absent [of ?sql "CHR ''(''"]
    show False by auto
  next
    case (Inr block)
    with m a have p: "parseColumns block = Inl NoColumnBlock"
      by (auto simp: ParseSQL_def ebind_def Let_def split: sum.splits)
    show False
    proof (cases "parseColumnsLoop (splitColumns block) []")
      case (Inl e')
      with p have "e' = NoColumnBlock" by (simp add: parseColumns_def ebind_def Let_def)
      with parseColumnsLoop_error [OF Inl] show False by simp
    next
      case (Inr flds)
      with p show False by (auto simp: parseColumns_def ebind_def Let_def split: if_splits)
    qed
  qed
qed

lemma ParseSQL_errors:
  assumes "isASCII sql" and "ParseSQL sql = Inl e"
  shows "e = NoTableName \<or> e = NoClosingParen \<or> e = NoValidColumns \<or>
         (e = Panic \<and>
          (\<exists>block clause name tail.
             extractColumnBlock (normalizeWhitespace (TrimSpace sql)) = Inr block \<and>
             clause \<in> set (splitColumns block) \<and>
             extractColumnName (TrimSpace clause) = Inr (name, tail) \<and>
             commentBeforeDefault tail))"
proof (cases "length (FindStringSubmatch tableNameRegex 1 (normalizeWhitespace (TrimSpace sql))) < 2")
  case True
  with assms(2) show ?thesis by (simp add: ParseSQL_def Let_def)
next
  case False
  let ?sql = "normalizeWhitespace (TrimSpace sql)"
  have ascii: "isASCII ?sql"
    using assms(1) by (rule isASCII_normalized)
  show ?thesis
  proof (cases "extractColumnBlock ?sql")
    case (Inl e')
    with False assms(2) have "e = e'" by (simp add: ParseSQL_def ebind_def Let_def)
    with extractColumnBlock_error [OF Inl] ParseSQL_never_NoColumnBlock [of sql] assms(2)
    show ?thesis by auto
  next
    case (Inr block)
    with False assms(2) have p: "parseColumns block = Inl e"
      by (auto simp: ParseSQL_def ebind_def Let_def split: sum.splits)
    show ?thesis
    proof (cases "parseColumnsLoop (splitColumns block) []")
      case (Inl e')
      with p have "e = e'" by (simp add: parseColumns_def ebind_def Let_def)
      with parseColumnsLoop_error [OF Inl] obtain clause where
        c: "e = Panic" "clause \<in> set (splitColumns block)"
           "parseColumnDefinition (TrimSpace clause) = Inl Panic"
        by auto
      have "sublist (TrimSpace clause) ?sql"
        using TrimSpace_sublist splitColumns_sublist [OF c(2)]
          extractColumnBlock_sublist [OF \<open>extractColumnBlock ?sql = Inr block\<close>]
        by (blast intro: sublist_trans)
      then have "isASCII (TrimSpace clause)"
        using ascii by (rule isASCII_sublist)
      from parseColumnDefinition_error [OF this c(3)] obtain name tail where
        "extractColumnName (TrimSpace clause) = Inr (name, tail)" "commentBeforeDefault tail"
        by (auto simp: TrimSpace_idem)
      with c Inr show ?thesis by blast
    next
      case (Inr flds)
      with p show ?thesis by (auto simp: parseColumns_def ebind_def Let_def split: if_splits)
    qed
  qed
qed

text \<open>After an unquoted \<^verbatim>\<open>DEFAULT\<close> value the tail is cut at \<^verbatim>\<open>DEFAULT\<close>: nothing that
  follows the value is kept.\<close>

lemma Fields_str_trimmed: "TrimSpace s \<noteq> [] \<Longrightarrow> length (Fields_str (TrimSpace s)) > 0"
  using FieldsAcc_first [of "[]" "TrimSpace s"] TrimSpace_hd [of s]
  by (simp add: Fields_str_def)

lemma removeCommentsAndDefaults_unquoted:
  assumes "isASCII tail"
    and "Index (ToUpper tail) ''COMMENT'' = None"
    and "Index (ToUpper tail) ''DEFAULT'' = Some idx"
    and "TrimSpace (drop (idx + 7) tail) \<noteq> []"
    and "TrimSpace (drop (idx + 7) tail) ! 0 \<noteq> CHR 0x27"
    and "TrimSpace (drop (idx + 7) tail) ! 0 \<noteq> CHR 0x22"
  shows "removeCommentsAndDefaults tail = Inr (TrimSpace (take idx tail))"
proof -
  have len: "length (ToUpper tail) = length tail" by (simp add: ToUpper_def)
  from Index_bound [OF assms(3)] len have b: "idx + 7 \<le> length tail" by simp
  then have s0: "sliceFrom tail (idx + 7) = Inr (drop (idx + 7) tail)"
    by (rule sliceFrom_ok)
  from b have s1: "sliceTo tail idx = Inr (take idx tail)"
    by (intro sliceTo_ok) simp
  from assms(4) have w: "length (Fields_str (TrimSpace (drop (idx + 7) tail))) > 0"
    by (rule Fields_str_trimmed)
  from assms(2-) s0 s1 w show ?thesis
    by (simp add: removeCommentsAndDefaults_def removeComment_def removeDefault_def ebind_def Let_def)
qed

section \<open>Scenarios\<close>

lemma remove_DEFAULT_inside_COMMENT:
  "removeCommentsAndDefaults (''TEXT COMMENT 'a DEFAULT b'' @ [CHR 0x27]) = Inl Panic"
  by code_simp

lemma ParseSQL_DEFAULT_inside_COMMENT:
  "ParseSQL ''CREATE TABLE t (notes TEXT COMMENT 'a DEFAULT b')'' = Inl Panic"
  by code_simp

text \<open>
  Claim C1 says that \<open>ParseSQL\<close> returns a record or an error of the taxonomy on every
  input, also when the \<^verbatim>\<open>COMMENT\<close> text contains the word \<^verbatim>\<open>DEFAULT\<close>. On the clause
  \<^verbatim>\<open>notes TEXT COMMENT 'a DEFAULT b'\<close> the code panics instead: the index of \<^verbatim>\<open>DEFAULT\<close> is
  taken in the whole upper-cased tail and used to slice the tail already cut at
  \<^verbatim>\<open>COMMENT\<close>.
\<close>

theorem ParseSQL_panics_DEFAULT_inside_COMMENT:
  "removeCommentsAndDefaults (''TEXT COMMENT 'a DEFAULT b'' @ [CHR 0x27]) = Inl Panic \<and>
   ParseSQL ''CREATE TABLE t (notes TEXT COMMENT 'a DEFAULT b')'' = Inl Panic"
  by (simp only: remove_DEFAULT_inside_COMMENT ParseSQL_DEFAULT_inside_COMMENT simp_thms)

lemma remove_DEFAULT_0: "removeCommentsAndDefaults ''INT DEFAULT 0 NOT NULL'' = Inr ''INT''"
  by code_simp

lemma ParseSQL_DEFAULT_0:
  "ParseSQL ''CREATE TABLE t (x INT DEFAULT 0 NOT NULL)'' =
     Inr [\<lparr>StructDef.Name = ''T'',
            Fields = [\<lparr>FieldDef.Name = ''X'', Type = ''*int'', ColumnName = ''x''\<rparr>]\<rparr>]"
  by code_simp

text \<open>
  Claim C2 says that after an unquoted \<^verbatim>\<open>DEFAULT\<close> value exactly one word is removed, so
  that \<^verbatim>\<open>x INT DEFAULT 0 NOT NULL\<close> is non-nullable. The code cuts the tail at \<^verbatim>\<open>DEFAULT\<close>:
  the text tested for \<^verbatim>\<open>NOT NULL\<close> is \<^verbatim>\<open>INT\<close> and the field is the pointer type
  \<^verbatim>\<open>*int\<close>.
\<close>

theorem DEFAULT_unquoted_cuts_tail:
  "removeCommentsAndDefaults ''INT DEFAULT 0 NOT NULL'' = Inr ''INT'' \<and>
   ParseSQL ''CREATE TABLE t (x INT DEFAULT 0 NOT NULL)'' =
     Inr [\<lparr>StructDef.Name = ''T'',
            Fields = [\<lparr>FieldDef.Name = ''X'', Type = ''*int'', ColumnName = ''x''\<rparr>]\<rparr>]"
  by (simp only: remove_DEFAULT_0 ParseSQL_DEFAULT_0 simp_thms)

lemma ParseSQL_users:
  "ParseSQL ''CREATE TABLE users (id INT NOT NULL, name VARCHAR(255) NOT NULL, email VARCHAR(255), created_at DATETIME NOT NULL)'' =
     Inr [\<lparr>StructDef.Name = ''Users'',
            Fields =
              [\<lparr>FieldDef.Name = ''Id'', Type = ''int'', ColumnName = ''id''\<rparr>,
               \<lparr>FieldDef.Name = ''Name'', Type = ''string'', ColumnName = ''name''\<rparr>,
               \<lparr>FieldDef.Name = ''Email'', Type = ''*string'', ColumnName = ''email''\<rparr>,
               \<lparr>FieldDef.Name = ''CreatedAt'', Type = ''time.Time'',
                  ColumnName = ''created_at''\<rparr>]\<rparr>]"
  by code_simp

lemma GenerateGoCode_users:
  \<open>GenerateGoCode
     [\<lparr>StructDef.Name = ''Users'',
        Fields =
          [\<lparr>FieldDef.Name = ''Id'', Type = ''int'', ColumnName = ''id''\<rparr>,
           \<lparr>FieldDef.Name = ''Name'', Type = ''string'', ColumnName = ''name''\<rparr>,
           \<lparr>FieldDef.Name = ''Email'', Type = ''*string'', ColumnName = ''email''\<rparr>,
           \<lparr>FieldDef.Name = ''CreatedAt'', Type = ''time.Time'',
              ColumnName = ''created_at''\<rparr>]\<rparr>]
     \<lparr>AddJSONTag = False, AddGormTag = False, AddXMLTag = False, AddDBTag = False\<rparr> =
   Inr (''package main'' @ [CHR 0x0A, CHR 0x0A] @ ''import "time"'' @ [CHR 0x0A, CHR 0x0A] @
        ''type Users struct {'' @ [CHR 0x0A] @
        [CHR 0x09] @ ''Id        int'' @ [CHR 0x0A] @
        [CHR 0x09] @ ''Name      string'' @ [CHR 0x0A] @
        [CHR 0x09] @ ''Email     *string'' @ [CHR 0x0A] @
        [CHR 0x09] @ ''CreatedAt time.Time'' @ [CHR 0x0A] @
        ''}'' @ [CHR 0x0A])\<close>
  by code_simp

lemma users_code_has_import:
  \<open>Contains
     (''package main'' @ [CHR 0x0A, CHR 0x0A] @ ''import "time"'' @ [CHR 0x0A, CHR 0x0A] @
      ''type Users struct {'' @ [CHR 0x0A] @
      [CHR 0x09] @ ''Id        int'' @ [CHR 0x0A] @
      [CHR 0x09] @ ''Name      string'' @ [CHR 0x0A] @
      [CHR 0x09] @ ''Email     *string'' @ [CHR 0x0A] @
      [CHR 0x09] @ ''CreatedAt time.Time'' @ [CHR 0x0A] @
      ''}'' @ [CHR 0x0A])
     (''import "time"'' @ [CHR 0x0A])\<close>
  by code_simp

text \<open>
  Claim C4. On the input \<^verbatim>\<open>CREATE TABLE users (id INT NOT NULL, name VARCHAR(255) NOT NULL,
  email VARCHAR(255), created_at DATETIME NOT NULL)\<close> \<open>ParseSQL\<close> returns exactly one record,
  named \<^verbatim>\<open>Users\<close>, with the four fields \<^verbatim>\<open>Id int\<close>, \<^verbatim>\<open>Name string\<close>, \<^verbatim>\<open>Email *string\<close>,
  \<^verbatim>\<open>CreatedAt time.Time\<close> in this order; with all tag flags off the generated text is the
  one below, and it contains the line \<^verbatim>\<open>import "time"\<close>.
\<close>

theorem users_scenario:
  \<open>ParseSQL ''CREATE TABLE users (id INT NOT NULL, name VARCHAR(255) NOT NULL, email VARCHAR(255), created_at DATETIME NOT NULL)'' =
     Inr [\<lparr>StructDef.Name = ''Users'',
            Fields =
              [\<lparr>FieldDef.Name = ''Id'', Type = ''int'', ColumnName = ''id''\<rparr>,
               \<lparr>FieldDef.Name = ''Name'', Type = ''string'', ColumnName = ''name''\<rparr>,
               \<lparr>FieldDef.Name = ''Email'', Type = ''*string'', ColumnName = ''email''\<rparr>,
               \<lparr>FieldDef.Name = ''CreatedAt'', Type = ''time.Time'',
                  ColumnName = ''created_at''\<rparr>]\<rparr>] \<and>
   GenerateGoCode
     [\<lparr>StructDef.Name = ''Users'',
        Fields =
          [\<lparr>FieldDef.Name = ''Id'', Type = ''int'', ColumnName = ''id''\<rparr>,
           \<lparr>FieldDef.Name = ''Name'', Type = ''string'', ColumnName = ''name''\<rparr>,
           \<lparr>FieldDef.Name = ''Email'', Type = ''*string'', ColumnName = ''email''\<rparr>,
           \<lparr>FieldDef.Name = ''CreatedAt'', Type = ''time.Time'',
              ColumnName = ''created_at''\<rparr>]\<rparr>]
     \<lparr>AddJSONTag = False, AddGormTag = False, AddXMLTag = False, AddDBTag = False\<rparr> =
   Inr (''package main'' @ [CHR 0x0A, CHR 0x0A] @ ''import "time"'' @ [CHR 0x0A, CHR 0x0A] @
        ''type Users struct {'' @ [CHR 0x0A] @
        [CHR 0x09] @ ''Id        int'' @ [CHR 0x0A] @
        [CHR 0x09] @ ''Name      string'' @ [CHR 0x0A] @
        [CHR 0x09] @ ''Email     *string'' @ [CHR 0x0A] @
        [CHR 0x09] @ ''CreatedAt time.Time'' @ [CHR 0x0A] @
        ''}'' @ [CHR 0x0A]) \<and>
   Contains
     (''package main'' @ [CHR 0x0A, CHR 0x0A] @ ''import "time"'' @ [CHR 0x0A, CHR 0x0A] @
      ''type Users struct {'' @ [CHR 0x0A] @
      [CHR 0x09] @ ''Id        int'' @ [CHR 0x0A] @
      [CHR 0x09] @ ''Name      string'' @ [CHR 0x0A] @
      [CHR 0x09] @ ''Email     *string'' @ [CHR 0x0A] @
      [CHR 0x09] @ ''CreatedAt time.Time'' @ [CHR 0x0A] @
      ''}'' @ [CHR 0x0A])
     (''import "time"'' @ [CHR 0x0A])\<close>
  by (intro conjI ParseSQL_users GenerateGoCode_users users_code_has_import)

lemma ParseSQL_unclosed_backtick:
  "ParseSQL ''CREATE TABLE `users (id INT)'' =
     Inr [\<lparr>StructDef.Name = ''Users'',
            Fields = [\<lparr>FieldDef.Name = ''Id'', Type = ''*int'', ColumnName = ''id''\<rparr>]\<rparr>]"
  by code_simp

lemma tableName_unclosed_backtick:
  "FindStringSubmatch tableNameRegex 1 ''CREATE TABLE `users (id INT)'' ! 1 = ''users''"
  by code_simp

lemma ParseSQL_mixed_quotes:
  \<open>ParseSQL ''CREATE TABLE `users" (id INT)'' =
     Inr [\<lparr>StructDef.Name = ''Users'',
            Fields = [\<lparr>FieldDef.Name = ''Id'', Type = ''*int'', ColumnName = ''id''\<rparr>]\<rparr>]\<close>
  by code_simp

lemma tableName_mixed_quotes:
  \<open>FindStringSubmatch tableNameRegex 1 ''CREATE TABLE `users" (id INT)'' ! 1 = ''users''\<close>
  by code_simp

text \<open>
  Claim C10. The quote characters around the table name are not checked for pairing: with
  an opening backtick that is never closed (\<^verbatim>\<open>CREATE TABLE `users (id INT)\<close>), and with a
  backtick closed by a double quote, \<open>ParseSQL\<close> succeeds and the table name is the bare
  identifier \<^verbatim>\<open>users\<close> (the record is named \<^verbatim>\<open>Users\<close>).
\<close>

theorem ParseSQL_unpaired_table_quotes:
  \<open>FindStringSubmatch tableNameRegex 1 ''CREATE TABLE `users (id INT)'' ! 1 = ''users'' \<and>
   ParseSQL ''CREATE TABLE `users (id INT)'' =
     Inr [\<lparr>StructDef.Name = ''Users'',
            Fields = [\<lparr>FieldDef.Name = ''Id'', Type = ''*int'', ColumnName = ''id''\<rparr>]\<rparr>] \<and>
   FindStringSubmatch tableNameRegex 1 ''CREATE TABLE `users" (id INT)'' ! 1 = ''users'' \<and>
   ParseSQL ''CREATE TABLE `users" (id INT)'' =
     Inr [\<lparr>StructDef.Name = ''Users'',
            Fields = [\<lparr>FieldDef.Name = ''Id'', Type = ''*int'', ColumnName = ''id''\<rparr>]\<rparr>]\<close>
  by (intro conjI tableName_unclosed_backtick ParseSQL_unclosed_backtick
      tableName_mixed_quotes ParseSQL_mixed_quotes)

end
